theory Spec2Isabelle
  imports Complex_Main
begin

section \<open>Pet Store API: data model (app/models.py, app/schemas.py)\<close>

text \<open>
  The application keeps three process-wide Python lists (\<open>pets_db\<close>, \<open>orders_db\<close>,
  \<open>users_db\<close>) and every request handler of \<open>app/main.py\<close> reads or mutates them.
  A handler is modelled as a function of the store (and of the clock reading, where
  the handler calls \<open>datetime.utcnow\<close>) that returns its outcome and, for the
  mutating handlers, the new store. An HTTP error raised by a handler is the \<open>Inl\<close>
  branch of the outcome.

  Python \<open>int\<close> is \<open>int\<close>; \<open>datetime\<close> is a point on an integer time line; \<open>float\<close>
  (the price) is only stored and copied, never computed with, and is carried as a
  \<open>real\<close>.
\<close>

type_synonym datetime = int

datatype PetStatus = AVAILABLE | PENDING | SOLD

datatype OrderStatus = PLACED | APPROVED | DELIVERED | CANCELLED

datatype PetCategory = DOG | CAT | BIRD | FISH | REPTILE | OTHER

text \<open>The enumerations derive from \<open>str\<close>; \<open>.value\<close> is the string of the member.\<close>

fun PetStatus_value :: "PetStatus \<Rightarrow> string" where
  "PetStatus_value AVAILABLE = ''available''"
| "PetStatus_value PENDING = ''pending''"
| "PetStatus_value SOLD = ''sold''"

fun OrderStatus_value :: "OrderStatus \<Rightarrow> string" where
  "OrderStatus_value PLACED = ''placed''"
| "OrderStatus_value APPROVED = ''approved''"
| "OrderStatus_value DELIVERED = ''delivered''"
| "OrderStatus_value CANCELLED = ''cancelled''"

fun PetCategory_value :: "PetCategory \<Rightarrow> string" where
  "PetCategory_value DOG = ''dog''"
| "PetCategory_value CAT = ''cat''"
| "PetCategory_value BIRD = ''bird''"
| "PetCategory_value FISH = ''fish''"
| "PetCategory_value REPTILE = ''reptile''"
| "PetCategory_value OTHER = ''other''"

text \<open>
  Class \<open>Pet\<close>. The field \<open>f\<close> of class \<open>C\<close> is the selector \<open>C_f\<close>. The seven fields
  that \<open>PetUpdate\<close> can address are options here although \<open>Pet\<close> declares six of
  them without \<open>Optional\<close>: \<open>update_pet\<close> writes them through \<open>pet.copy(update=...)\<close>,
  which stores the payload's values without validating them, so a stored record can
  hold \<open>None\<close> in any of them. A record built by the \<open>Pet(...)\<close> constructor from a
  validated \<open>PetCreate\<close> holds \<open>Some\<close> in all six.
\<close>

record Pet =
  Pet_id :: int
  Pet_name :: "string option"
  Pet_category :: "PetCategory option"
  Pet_status :: "PetStatus option"
  Pet_tags :: "string list option"
  Pet_price :: "real option"
  Pet_description :: "string option"
  Pet_photo_urls :: "string list option"
  Pet_created_at :: datetime
  Pet_updated_at :: "datetime option"

text \<open>Class \<open>PetCreate\<close>, as the handler receives it (validated by the framework).\<close>

record PetCreate =
  PetCreate_name :: string
  PetCreate_category :: PetCategory
  PetCreate_status :: PetStatus
  PetCreate_tags :: "string list"
  PetCreate_price :: real
  PetCreate_description :: "string option"
  PetCreate_photo_urls :: "string list"

text \<open>
  Class \<open>PetUpdate\<close>: every field is \<open>Optional\<close> with default \<open>None\<close>, and the model
  remembers which fields the request body set. \<open>Unset\<close> is a field absent from the
  body, \<open>Given None\<close> a field sent as \<open>null\<close>, \<open>Given (Some v)\<close> a field sent with a
  value.
\<close>

datatype 'a field = Unset | Given 'a

record PetUpdate =
  PetUpdate_name :: "string option field"
  PetUpdate_category :: "PetCategory option field"
  PetUpdate_status :: "PetStatus option field"
  PetUpdate_tags :: "string list option field"
  PetUpdate_price :: "real option field"
  PetUpdate_description :: "string option field"
  PetUpdate_photo_urls :: "string list option field"

record Order =
  Order_id :: int
  Order_pet_id :: int
  Order_user_id :: int
  Order_quantity :: int
  Order_ship_date :: "datetime option"
  Order_status :: OrderStatus
  Order_complete :: bool
  Order_created_at :: datetime
  Order_updated_at :: "datetime option"

record OrderCreate =
  OrderCreate_pet_id :: int
  OrderCreate_user_id :: int
  OrderCreate_quantity :: int
  OrderCreate_ship_date :: "datetime option"
  OrderCreate_status :: OrderStatus
  OrderCreate_complete :: bool

record User =
  User_id :: int
  User_username :: string
  User_first_name :: string
  User_last_name :: string
  User_email :: string
  User_phone :: "string option"
  User_password :: string
  User_user_status :: int
  User_created_at :: datetime
  User_updated_at :: "datetime option"

record UserCreate =
  UserCreate_username :: string
  UserCreate_first_name :: string
  UserCreate_last_name :: string
  UserCreate_email :: string
  UserCreate_phone :: "string option"
  UserCreate_password :: string
  UserCreate_user_status :: int

text \<open>Response schemas (app/schemas.py).\<close>

record PetResponse =
  PetResponse_id :: int
  PetResponse_name :: string
  PetResponse_category :: PetCategory
  PetResponse_status :: PetStatus
  PetResponse_tags :: "string list"
  PetResponse_price :: real
  PetResponse_description :: "string option"
  PetResponse_photo_urls :: "string list"
  PetResponse_created_at :: datetime
  PetResponse_updated_at :: "datetime option"

record OrderResponse =
  OrderResponse_id :: int
  OrderResponse_pet_id :: int
  OrderResponse_user_id :: int
  OrderResponse_quantity :: int
  OrderResponse_ship_date :: "datetime option"
  OrderResponse_status :: OrderStatus
  OrderResponse_complete :: bool
  OrderResponse_created_at :: datetime
  OrderResponse_updated_at :: "datetime option"

record UserResponse =
  UserResponse_id :: int
  UserResponse_username :: string
  UserResponse_first_name :: string
  UserResponse_last_name :: string
  UserResponse_email :: string
  UserResponse_phone :: "string option"
  UserResponse_user_status :: int
  UserResponse_created_at :: datetime
  UserResponse_updated_at :: "datetime option"

record ApiResponse =
  ApiResponse_code :: int
  ApiResponse_type :: string
  ApiResponse_message :: string
  ApiResponse_timestamp :: datetime

text \<open>
  What a request can end in besides its response: \<open>HTTPException status_code detail\<close>
  raised by the handler, the framework's rejection of a query parameter outside its
  declared bounds (422), and any other Python exception escaping the handler (500).
\<close>

datatype error =
    HTTPException int string
  | RequestValidationError
  | InternalServerError

fun status_code :: "error \<Rightarrow> int" where
  "status_code (HTTPException c d) = c"
| "status_code RequestValidationError = 422"
| "status_code InternalServerError = 500"

text \<open>The three module-level lists.\<close>

record store =
  pets_db :: "Pet list"
  orders_db :: "Order list"
  users_db :: "User list"

section \<open>Python built-ins used by the handlers\<close>

text \<open>\<open>max(xs, default=d)\<close>: the default for the empty list, else the largest element.\<close>

fun py_max_default :: "int list \<Rightarrow> int \<Rightarrow> int" where
  "py_max_default [] d = d"
| "py_max_default (x # xs) d = fold max xs x"

text \<open>
  \<open>xs[start:stop]\<close> for integer bounds: a negative bound counts from the end, and
  both bounds are clamped to the list, so a slice never raises.
\<close>

definition py_slice :: "'a list \<Rightarrow> int \<Rightarrow> int \<Rightarrow> 'a list" where
  "py_slice xs start stop =
     (let n = int (length xs);
          clamp = (\<lambda>i. if i < 0 then max (i + n) 0 else min i n);
          s = clamp start;
          e = clamp stop
      in take (nat (e - s)) (drop (nat s) xs))"

text \<open>
  \<open>for i, x in enumerate(xs): if P(x): ... return\<close>: the index of the first element
  that satisfies the test, if there is one.
\<close>

fun first_index :: "('a \<Rightarrow> bool) \<Rightarrow> 'a list \<Rightarrow> nat option" where
  "first_index P [] = None"
| "first_index P (x # xs) = (if P x then Some 0 else map_option Suc (first_index P xs))"

text \<open>\<open>str(i)\<close> for an integer, as the f-strings of the delete handlers format it.\<close>

fun str_nat :: "nat \<Rightarrow> string" where
  "str_nat n =
     (if n < 10 then [''0123456789'' ! n]
      else str_nat (n div 10) @ [''0123456789'' ! (n mod 10)])"

declare str_nat.simps [simp del]

definition str_int :: "int \<Rightarrow> string" where
  "str_int i = (if i < 0 then CHR ''-'' # str_nat (nat (- i)) else str_nat (nat i))"

section \<open>Response construction\<close>

text \<open>
  \<open>PetResponse(**pet.dict())\<close>: the schema requires \<open>name\<close>, \<open>category\<close>, \<open>status\<close>,
  \<open>tags\<close>, \<open>price\<close> and \<open>photo_urls\<close> to be present and not \<open>None\<close>; on a record that
  holds \<open>None\<close> in one of them the constructor raises a validation error inside the
  handler, which the client sees as a 500.
\<close>

definition PetResponse_of :: "Pet \<Rightarrow> error + PetResponse" where
  "PetResponse_of pet =
     (case (Pet_name pet, Pet_category pet, Pet_status pet, Pet_tags pet, Pet_price pet,
            Pet_photo_urls pet) of
        (Some name, Some category, Some status, Some tags, Some price, Some photo_urls) \<Rightarrow>
          Inr \<lparr> PetResponse_id = Pet_id pet,
                PetResponse_name = name,
                PetResponse_category = category,
                PetResponse_status = status,
                PetResponse_tags = tags,
                PetResponse_price = price,
                PetResponse_description = Pet_description pet,
                PetResponse_photo_urls = photo_urls,
                PetResponse_created_at = Pet_created_at pet,
                PetResponse_updated_at = Pet_updated_at pet \<rparr>
      | _ \<Rightarrow> Inl InternalServerError)"

text \<open>
  \<open>[PetResponse(**pet.dict()) for pet in pets]\<close>: the comprehension builds the
  responses in order and the first constructor that raises ends it.
\<close>

fun PetResponse_list :: "Pet list \<Rightarrow> error + PetResponse list" where
  "PetResponse_list [] = Inr []"
| "PetResponse_list (pet # pets) =
     (case PetResponse_of pet of
        Inl e \<Rightarrow> Inl e
      | Inr r \<Rightarrow> (case PetResponse_list pets of Inl e \<Rightarrow> Inl e | Inr rs \<Rightarrow> Inr (r # rs)))"

text \<open>\<open>OrderResponse(**order.dict())\<close>.\<close>

definition OrderResponse_of :: "Order \<Rightarrow> OrderResponse" where
  "OrderResponse_of order =
     \<lparr> OrderResponse_id = Order_id order,
       OrderResponse_pet_id = Order_pet_id order,
       OrderResponse_user_id = Order_user_id order,
       OrderResponse_quantity = Order_quantity order,
       OrderResponse_ship_date = Order_ship_date order,
       OrderResponse_status = Order_status order,
       OrderResponse_complete = Order_complete order,
       OrderResponse_created_at = Order_created_at order,
       OrderResponse_updated_at = Order_updated_at order \<rparr>"

text \<open>\<open>UserResponse(**user.dict())\<close>: the schema has no \<open>password\<close> field.\<close>

definition UserResponse_of :: "User \<Rightarrow> UserResponse" where
  "UserResponse_of user =
     \<lparr> UserResponse_id = User_id user,
       UserResponse_username = User_username user,
       UserResponse_first_name = User_first_name user,
       UserResponse_last_name = User_last_name user,
       UserResponse_email = User_email user,
       UserResponse_phone = User_phone user,
       UserResponse_user_status = User_user_status user,
       UserResponse_created_at = User_created_at user,
       UserResponse_updated_at = User_updated_at user \<rparr>"

section \<open>Sample data (\<open>initialize_sample_data\<close>)\<close>

text \<open>
  The module calls \<open>initialize_sample_data()\<close> once at import, on three empty lists.
  \<open>created_at\<close> takes its default, the clock reading \<open>now\<close> of that moment; the seeded
  users leave \<open>user_status\<close> at its default 1.
\<close>

definition sample_pets :: "datetime \<Rightarrow> Pet list" where
  "sample_pets now =
     [ \<lparr> Pet_id = 1, Pet_name = Some ''Buddy'', Pet_category = Some DOG,
         Pet_status = Some AVAILABLE, Pet_tags = Some [''friendly'', ''house-trained''],
         Pet_price = Some 299.99, Pet_description = Some ''A friendly golden retriever'',
         Pet_photo_urls = Some [''https://example.com/buddy1.jpg''],
         Pet_created_at = now, Pet_updated_at = None \<rparr>,
       \<lparr> Pet_id = 2, Pet_name = Some ''Whiskers'', Pet_category = Some CAT,
         Pet_status = Some AVAILABLE, Pet_tags = Some [''playful'', ''indoor''],
         Pet_price = Some 199.99, Pet_description = Some ''A playful orange tabby cat'',
         Pet_photo_urls = Some [''https://example.com/whiskers1.jpg''],
         Pet_created_at = now, Pet_updated_at = None \<rparr>,
       \<lparr> Pet_id = 3, Pet_name = Some ''Tweety'', Pet_category = Some BIRD,
         Pet_status = Some SOLD, Pet_tags = Some [''colorful'', ''singing''],
         Pet_price = Some 89.99, Pet_description = Some ''A beautiful canary'',
         Pet_photo_urls = Some [''https://example.com/tweety1.jpg''],
         Pet_created_at = now, Pet_updated_at = None \<rparr> ]"

definition sample_users :: "datetime \<Rightarrow> User list" where
  "sample_users now =
     [ \<lparr> User_id = 1, User_username = ''johndoe'', User_first_name = ''John'',
         User_last_name = ''Doe'', User_email = ''john@example.com'',
         User_phone = Some ''+1234567890'', User_password = ''password123'',
         User_user_status = 1, User_created_at = now, User_updated_at = None \<rparr>,
       \<lparr> User_id = 2, User_username = ''janedoe'', User_first_name = ''Jane'',
         User_last_name = ''Doe'', User_email = ''jane@example.com'',
         User_phone = Some ''+1234567891'', User_password = ''password123'',
         User_user_status = 1, User_created_at = now, User_updated_at = None \<rparr> ]"

definition initialize_sample_data :: "store \<Rightarrow> datetime \<Rightarrow> store" where
  "initialize_sample_data st now =
     (let st1 = (if pets_db st = [] then st\<lparr>pets_db := pets_db st @ sample_pets now\<rparr> else st)
      in if users_db st1 = [] then st1\<lparr>users_db := users_db st1 @ sample_users now\<rparr> else st1)"

definition initial_store :: "datetime \<Rightarrow> store" where
  "initial_store now =
     initialize_sample_data \<lparr> pets_db = [], orders_db = [], users_db = [] \<rparr> now"

section \<open>Pet handlers\<close>

text \<open>
  \<open>GET /pets\<close>. The framework rejects a \<open>limit\<close> outside 1..100 or a negative \<open>offset\<close>
  before the handler runs. \<open>if status:\<close> tests the truth value of an optional
  string-valued enum member: \<open>None\<close> and a member whose value is the empty string
  skip the filter.
\<close>

definition get_pets ::
  "store \<Rightarrow> PetStatus option \<Rightarrow> PetCategory option \<Rightarrow> int \<Rightarrow> int \<Rightarrow> error + PetResponse list"
where
  "get_pets st status category limit offset =
     (if limit < 1 \<or> 100 < limit \<or> offset < 0 then Inl RequestValidationError
      else
        let filtered_pets = pets_db st;
            filtered_pets =
              (case status of
                 None \<Rightarrow> filtered_pets
               | Some s \<Rightarrow>
                   if PetStatus_value s \<noteq> []
                   then filter (\<lambda>pet. Pet_status pet = Some s) filtered_pets
                   else filtered_pets);
            filtered_pets =
              (case category of
                 None \<Rightarrow> filtered_pets
               | Some c \<Rightarrow>
                   if PetCategory_value c \<noteq> []
                   then filter (\<lambda>pet. Pet_category pet = Some c) filtered_pets
                   else filtered_pets);
            start = offset;
            stop = offset + limit;
            paginated_pets = py_slice filtered_pets start stop
        in PetResponse_list paginated_pets)"

text \<open>\<open>GET /pets/{pet_id}\<close>: the first record with the id, or 404.\<close>

definition get_pet :: "store \<Rightarrow> int \<Rightarrow> error + PetResponse" where
  "get_pet st pet_id =
     (case find (\<lambda>pet. Pet_id pet = pet_id) (pets_db st) of
        Some pet \<Rightarrow> PetResponse_of pet
      | None \<Rightarrow> Inl (HTTPException 404 ''Pet not found''))"

text \<open>\<open>POST /pets\<close>.\<close>

definition create_pet :: "store \<Rightarrow> datetime \<Rightarrow> PetCreate \<Rightarrow> (error + PetResponse) \<times> store" where
  "create_pet st now pet =
     (let new_id = py_max_default (map Pet_id (pets_db st)) 0 + 1;
          new_pet = \<lparr> Pet_id = new_id,
                      Pet_name = Some (PetCreate_name pet),
                      Pet_category = Some (PetCreate_category pet),
                      Pet_status = Some (PetCreate_status pet),
                      Pet_tags = Some (PetCreate_tags pet),
                      Pet_price = Some (PetCreate_price pet),
                      Pet_description = PetCreate_description pet,
                      Pet_photo_urls = Some (PetCreate_photo_urls pet),
                      Pet_created_at = now,
                      Pet_updated_at = None \<rparr>
      in (PetResponse_of new_pet, st\<lparr>pets_db := pets_db st @ [new_pet]\<rparr>))"

text \<open>
  \<open>pet.copy(update=pet_update.dict(exclude_unset=True))\<close>: a field the body set
  (to a value or to \<open>null\<close>) replaces the stored one, a field the body left out keeps it.
\<close>

definition merge_field :: "'a field \<Rightarrow> 'a \<Rightarrow> 'a" where
  "merge_field f old = (case f of Unset \<Rightarrow> old | Given v \<Rightarrow> v)"

definition copy_update :: "Pet \<Rightarrow> PetUpdate \<Rightarrow> Pet" where
  "copy_update pet u =
     pet\<lparr> Pet_name := merge_field (PetUpdate_name u) (Pet_name pet),
          Pet_category := merge_field (PetUpdate_category u) (Pet_category pet),
          Pet_status := merge_field (PetUpdate_status u) (Pet_status pet),
          Pet_tags := merge_field (PetUpdate_tags u) (Pet_tags pet),
          Pet_price := merge_field (PetUpdate_price u) (Pet_price pet),
          Pet_description := merge_field (PetUpdate_description u) (Pet_description pet),
          Pet_photo_urls := merge_field (PetUpdate_photo_urls u) (Pet_photo_urls pet) \<rparr>"

text \<open>
  \<open>PUT /pets/{pet_id}\<close>. The body parameter defaults to \<open>None\<close>; without a body
  \<open>pet_update.dict\<close> raises as soon as a record matches. The list is written before
  the response is built, so a response that fails to build leaves the write in place.
\<close>

definition update_pet ::
  "store \<Rightarrow> datetime \<Rightarrow> int \<Rightarrow> PetUpdate option \<Rightarrow> (error + PetResponse) \<times> store"
where
  "update_pet st now pet_id pet_update =
     (case first_index (\<lambda>pet. Pet_id pet = pet_id) (pets_db st) of
        None \<Rightarrow> (Inl (HTTPException 404 ''Pet not found''), st)
      | Some i \<Rightarrow>
          (case pet_update of
             None \<Rightarrow> (Inl InternalServerError, st)
           | Some u \<Rightarrow>
               let pet = pets_db st ! i;
                   updated_pet = copy_update pet u;
                   updated_pet = updated_pet\<lparr>Pet_updated_at := Some now\<rparr>
               in (PetResponse_of updated_pet,
                   st\<lparr>pets_db := (pets_db st)[i := updated_pet]\<rparr>)))"

text \<open>\<open>DELETE /pets/{pet_id}\<close>: \<open>del pets_db[i]\<close> at the first record with the id.\<close>

definition delete_pet :: "store \<Rightarrow> datetime \<Rightarrow> int \<Rightarrow> (error + ApiResponse) \<times> store" where
  "delete_pet st now pet_id =
     (case first_index (\<lambda>pet. Pet_id pet = pet_id) (pets_db st) of
        None \<Rightarrow> (Inl (HTTPException 404 ''Pet not found''), st)
      | Some i \<Rightarrow>
          (Inr \<lparr> ApiResponse_code = 200,
                 ApiResponse_type = ''success'',
                 ApiResponse_message = ''Pet '' @ str_int pet_id @ '' deleted successfully'',
                 ApiResponse_timestamp = now \<rparr>,
           st\<lparr>pets_db := take i (pets_db st) @ drop (Suc i) (pets_db st)\<rparr>))"

section \<open>Order handlers\<close>

text \<open>\<open>POST /orders\<close>: the pet is looked up first, then the user.\<close>

definition create_order ::
  "store \<Rightarrow> datetime \<Rightarrow> OrderCreate \<Rightarrow> (error + OrderResponse) \<times> store"
where
  "create_order st now order =
     (let pet_exists = list_ex (\<lambda>pet. Pet_id pet = OrderCreate_pet_id order) (pets_db st)
      in if \<not> pet_exists then (Inl (HTTPException 400 ''Pet not found''), st)
         else
           let user_exists =
                 list_ex (\<lambda>user. User_id user = OrderCreate_user_id order) (users_db st)
           in if \<not> user_exists then (Inl (HTTPException 400 ''User not found''), st)
              else
                let new_id = py_max_default (map Order_id (orders_db st)) 0 + 1;
                    new_order = \<lparr> Order_id = new_id,
                                  Order_pet_id = OrderCreate_pet_id order,
                                  Order_user_id = OrderCreate_user_id order,
                                  Order_quantity = OrderCreate_quantity order,
                                  Order_ship_date = OrderCreate_ship_date order,
                                  Order_status = OrderCreate_status order,
                                  Order_complete = OrderCreate_complete order,
                                  Order_created_at = now,
                                  Order_updated_at = None \<rparr>
                in (Inr (OrderResponse_of new_order),
                    st\<lparr>orders_db := orders_db st @ [new_order]\<rparr>))"

text \<open>\<open>DELETE /orders/{order_id}\<close>.\<close>

definition delete_order :: "store \<Rightarrow> datetime \<Rightarrow> int \<Rightarrow> (error + ApiResponse) \<times> store" where
  "delete_order st now order_id =
     (case first_index (\<lambda>order. Order_id order = order_id) (orders_db st) of
        None \<Rightarrow> (Inl (HTTPException 404 ''Order not found''), st)
      | Some i \<Rightarrow>
          (Inr \<lparr> ApiResponse_code = 200,
                 ApiResponse_type = ''success'',
                 ApiResponse_message = ''Order '' @ str_int order_id @ '' deleted successfully'',
                 ApiResponse_timestamp = now \<rparr>,
           st\<lparr>orders_db := take i (orders_db st) @ drop (Suc i) (orders_db st)\<rparr>))"

section \<open>User handlers\<close>

text \<open>\<open>POST /users\<close>: the username is compared first, then the email.\<close>

definition create_user ::
  "store \<Rightarrow> datetime \<Rightarrow> UserCreate \<Rightarrow> (error + UserResponse) \<times> store"
where
  "create_user st now user =
     (if list_ex (\<lambda>u. User_username u = UserCreate_username user) (users_db st)
      then (Inl (HTTPException 400 ''Username already exists''), st)
      else if list_ex (\<lambda>u. User_email u = UserCreate_email user) (users_db st)
      then (Inl (HTTPException 400 ''Email already exists''), st)
      else
        let new_id = py_max_default (map User_id (users_db st)) 0 + 1;
            new_user = \<lparr> User_id = new_id,
                         User_username = UserCreate_username user,
                         User_first_name = UserCreate_first_name user,
                         User_last_name = UserCreate_last_name user,
                         User_email = UserCreate_email user,
                         User_phone = UserCreate_phone user,
                         User_password = UserCreate_password user,
                         User_user_status = UserCreate_user_status user,
                         User_created_at = now,
                         User_updated_at = None \<rparr>
        in (Inr (UserResponse_of new_user), st\<lparr>users_db := users_db st @ [new_user]\<rparr>))"

text \<open>\<open>DELETE /users/{user_id}\<close>.\<close>

definition delete_user :: "store \<Rightarrow> datetime \<Rightarrow> int \<Rightarrow> (error + ApiResponse) \<times> store" where
  "delete_user st now user_id =
     (case first_index (\<lambda>user. User_id user = user_id) (users_db st) of
        None \<Rightarrow> (Inl (HTTPException 404 ''User not found''), st)
      | Some i \<Rightarrow>
          (Inr \<lparr> ApiResponse_code = 200,
                 ApiResponse_type = ''success'',
                 ApiResponse_message = ''User '' @ str_int user_id @ '' deleted successfully'',
                 ApiResponse_timestamp = now \<rparr>,
           st\<lparr>users_db := take i (users_db st) @ drop (Suc i) (users_db st)\<rparr>))"

section \<open>Inventory\<close>

text \<open>
  \<open>GET /inventory\<close>: the loop over \<open>pets_db\<close> with the dictionary built so far.
  \<open>pet.status.value\<close> raises on a record whose status is \<open>None\<close>; \<open>inventory[status] += 1\<close>
  reads the key that the line before has made sure is there.
\<close>

fun inventory_loop :: "Pet list \<Rightarrow> (string \<rightharpoonup> int) \<Rightarrow> error + (string \<rightharpoonup> int)" where
  "inventory_loop [] inventory = Inr inventory"
| "inventory_loop (pet # pets) inventory =
     (case Pet_status pet of
        None \<Rightarrow> Inl InternalServerError
      | Some s \<Rightarrow>
          let status = PetStatus_value s;
              inventory = (if inventory status = None then inventory(status \<mapsto> 0) else inventory)
          in (case inventory status of
                None \<Rightarrow> Inl InternalServerError
              | Some n \<Rightarrow> inventory_loop pets (inventory(status \<mapsto> n + 1))))"

definition get_inventory :: "store \<Rightarrow> error + (string \<rightharpoonup> int)" where
  "get_inventory st = inventory_loop (pets_db st) Map.empty"

section \<open>Sequences of requests\<close>

text \<open>
  The requests that can change the store, one constructor per mutating route; the
  \<open>GET\<close> routes leave the three lists as they are. \<open>handle\<close> is the store after the
  route's handler has run, whether it returned or raised.
\<close>

datatype request =
    CreatePet PetCreate
  | UpdatePet int "PetUpdate option"
  | DeletePet int
  | CreateOrder OrderCreate
  | DeleteOrder int
  | CreateUser UserCreate
  | DeleteUser int

fun handle :: "store \<Rightarrow> datetime \<Rightarrow> request \<Rightarrow> store" where
  "handle st now (CreatePet pet) = snd (create_pet st now pet)"
| "handle st now (UpdatePet pet_id pet_update) = snd (update_pet st now pet_id pet_update)"
| "handle st now (DeletePet pet_id) = snd (delete_pet st now pet_id)"
| "handle st now (CreateOrder order) = snd (create_order st now order)"
| "handle st now (DeleteOrder order_id) = snd (delete_order st now order_id)"
| "handle st now (CreateUser user) = snd (create_user st now user)"
| "handle st now (DeleteUser user_id) = snd (delete_user st now user_id)"

text \<open>The stores the running application can be in: the seeded one and every successor.\<close>

inductive reachable :: "store \<Rightarrow> bool" where
  initial: "reachable (initial_store now)"
| step: "reachable st \<Longrightarrow> reachable (handle st now req)"

text \<open>
  The collection a request addresses, the ids a collection holds (in list order), and
  the id found in the response of a creation that succeeded.
\<close>

datatype collection = Pets | Orders | Users

fun ids_of :: "collection \<Rightarrow> store \<Rightarrow> int list" where
  "ids_of Pets st = map Pet_id (pets_db st)"
| "ids_of Orders st = map Order_id (orders_db st)"
| "ids_of Users st = map User_id (users_db st)"

fun created_id :: "store \<Rightarrow> datetime \<Rightarrow> request \<Rightarrow> (collection \<times> int) option" where
  "created_id st now (CreatePet pet) =
     (case fst (create_pet st now pet) of
        Inr r \<Rightarrow> Some (Pets, PetResponse_id r) | Inl e \<Rightarrow> None)"
| "created_id st now (CreateOrder order) =
     (case fst (create_order st now order) of
        Inr r \<Rightarrow> Some (Orders, OrderResponse_id r) | Inl e \<Rightarrow> None)"
| "created_id st now (CreateUser user) =
     (case fst (create_user st now user) of
        Inr r \<Rightarrow> Some (Users, UserResponse_id r) | Inl e \<Rightarrow> None)"
| "created_id st now req = None"

fun is_delete :: "collection \<Rightarrow> request \<Rightarrow> bool" where
  "is_delete Pets (DeletePet pet_id) = True"
| "is_delete Orders (DeleteOrder order_id) = True"
| "is_delete Users (DeleteUser user_id) = True"
| "is_delete c req = False"

text \<open>
  The ids that the creations of a run assign in collection \<open>c\<close>, in the order of
  assignment; each request comes with the clock reading of its handler.
\<close>

fun assigned_ids :: "collection \<Rightarrow> store \<Rightarrow> (datetime \<times> request) list \<Rightarrow> int list" where
  "assigned_ids c st [] = []"
| "assigned_ids c st ((now, req) # rest) =
     (case created_id st now req of
        Some (c', n) \<Rightarrow> if c' = c then [n] else []
      | None \<Rightarrow> [])
     @ assigned_ids c (handle st now req) rest"

section \<open>Reference notions and sample requests\<close>

text \<open>
  The id rule in the specification's words: one more than the largest id present,
  or 1 for an empty collection.
\<close>

definition spec_next_id :: "int list \<Rightarrow> int" where
  "spec_next_id ids = (if ids = [] then 1 else Max (set ids) + 1)"

text \<open>Request bodies of the test suite (tests/test_main.py), used as concrete inputs.\<close>

definition fluffy :: PetCreate where
  "fluffy = \<lparr> PetCreate_name = ''Fluffy'', PetCreate_category = CAT,
      PetCreate_status = AVAILABLE, PetCreate_tags = [''cute'', ''fluffy''],
      PetCreate_price = 199.99, PetCreate_description = Some ''A fluffy white cat'',
      PetCreate_photo_urls = [''https://example.com/fluffy1.jpg''] \<rparr>"

definition order_for_buddy :: OrderCreate where
  "order_for_buddy = \<lparr> OrderCreate_pet_id = 1, OrderCreate_user_id = 1,
      OrderCreate_quantity = 1, OrderCreate_ship_date = None, OrderCreate_status = PLACED,
      OrderCreate_complete = False \<rparr>"

definition newuser :: UserCreate where
  "newuser = \<lparr> UserCreate_username = ''newuser'', UserCreate_first_name = ''New'',
      UserCreate_last_name = ''User'', UserCreate_email = ''newuser@example.com'',
      UserCreate_phone = None, UserCreate_password = ''password123'',
      UserCreate_user_status = 1 \<rparr>"

definition order_invalid_pet :: OrderCreate where
  "order_invalid_pet = \<lparr> OrderCreate_pet_id = 999, OrderCreate_user_id = 1,
      OrderCreate_quantity = 1, OrderCreate_ship_date = None, OrderCreate_status = PLACED,
      OrderCreate_complete = False \<rparr>"


text \<open>Two further bodies: an order naming no pet and no user, a user repeating both
  the username and the email of a seeded user.\<close>

definition order_both_missing :: OrderCreate where
  "order_both_missing = \<lparr> OrderCreate_pet_id = 999, OrderCreate_user_id = 999,
      OrderCreate_quantity = 1, OrderCreate_ship_date = None, OrderCreate_status = PLACED,
      OrderCreate_complete = False \<rparr>"

definition duplicate_both :: UserCreate where
  "duplicate_both = \<lparr> UserCreate_username = ''johndoe'', UserCreate_first_name = ''John'',
      UserCreate_last_name = ''Doe'', UserCreate_email = ''john@example.com'',
      UserCreate_phone = None, UserCreate_password = ''password123'',
      UserCreate_user_status = 1 \<rparr>"

text \<open>The body of the update test: a new name and a new price, nothing else.\<close>

definition buddy_update :: PetUpdate where
  "buddy_update = \<lparr> PetUpdate_name = Given (Some ''Buddy Updated''),
      PetUpdate_category = Unset, PetUpdate_status = Unset, PetUpdate_tags = Unset,
      PetUpdate_price = Given (Some 349.99), PetUpdate_description = Unset,
      PetUpdate_photo_urls = Unset \<rparr>"

text \<open>
  The number of records of a pet list whose status has the string value \<open>k\<close>: what the
  inventory is to report under the key \<open>k\<close>.
\<close>

definition holding :: "Pet list \<Rightarrow> string \<Rightarrow> nat" where
  "holding pets k =
     length (filter (\<lambda>p. case Pet_status p of None \<Rightarrow> False
                                              | Some s \<Rightarrow> PetStatus_value s = k) pets)"

text \<open>
  A stored record has the field types that class \<open>Pet\<close> declares when none of the six
  fields declared without \<open>Optional\<close> holds \<open>None\<close>.
\<close>

definition conforms :: "Pet \<Rightarrow> bool" where
  "conforms pet \<longleftrightarrow>
     Pet_name pet \<noteq> None \<and> Pet_category pet \<noteq> None \<and> Pet_status pet \<noteq> None
     \<and> Pet_tags pet \<noteq> None \<and> Pet_price pet \<noteq> None \<and> Pet_photo_urls pet \<noteq> None"

text \<open>
  The listing in the specification's words: a record satisfies the filters when it
  passes each filter that is given, and the page is the index range
  \<open>[offset, offset + limit)\<close> of the records that do.
\<close>

definition satisfies :: "PetStatus option \<Rightarrow> PetCategory option \<Rightarrow> Pet \<Rightarrow> bool" where
  "satisfies status category pet \<longleftrightarrow>
     (case status of None \<Rightarrow> True | Some s \<Rightarrow> Pet_status pet = Some s)
     \<and> (case category of None \<Rightarrow> True | Some c \<Rightarrow> Pet_category pet = Some c)"

definition spec_page :: "'a list \<Rightarrow> int \<Rightarrow> int \<Rightarrow> 'a list" where
  "spec_page xs offset limit = take (nat limit) (drop (nat offset) xs)"

text \<open>An update body that sends \<open>"status": null\<close> and nothing else.\<close>

definition null_status :: PetUpdate where
  "null_status = \<lparr> PetUpdate_name = Unset, PetUpdate_category = Unset,
      PetUpdate_status = Given None, PetUpdate_tags = Unset, PetUpdate_price = Unset,
      PetUpdate_description = Unset, PetUpdate_photo_urls = Unset \<rparr>"

section \<open>The user route with its email validation\<close>






section \<open>Basic facts about the built-ins\<close>

lemmas seed_defs = initial_store_def initialize_sample_data_def sample_pets_def sample_users_def

lemma py_max_default_Max: "xs \<noteq> [] \<Longrightarrow> py_max_default xs d = Max (set xs)"
  by (cases xs) (simp_all add: Max.set_eq_fold del: set_simps)

lemma next_id_spec: "py_max_default xs 0 + 1 = spec_next_id xs"
  by (simp add: spec_next_id_def py_max_default_Max)

lemma next_id_greater: "x \<in> set xs \<Longrightarrow> x < py_max_default xs 0 + 1"
proof -
  assume x: "x \<in> set xs"
  then have "xs \<noteq> []" by auto
  then have "py_max_default xs 0 = Max (set xs)" by (rule py_max_default_Max)
  moreover have "x \<le> Max (set xs)" using x by simp
  ultimately show ?thesis by simp
qed

lemma PetResponse_of_new:
  "PetResponse_of \<lparr> Pet_id = n, Pet_name = Some a, Pet_category = Some b, Pet_status = Some c,
      Pet_tags = Some d, Pet_price = Some e, Pet_description = f, Pet_photo_urls = Some g,
      Pet_created_at = t, Pet_updated_at = u \<rparr> =
   Inr \<lparr> PetResponse_id = n, PetResponse_name = a, PetResponse_category = b,
         PetResponse_status = c, PetResponse_tags = d, PetResponse_price = e,
         PetResponse_description = f, PetResponse_photo_urls = g,
         PetResponse_created_at = t, PetResponse_updated_at = u \<rparr>"
  by (simp add: PetResponse_of_def)

section \<open>Creation\<close>

lemma create_pet_result:
  "\<exists>r p. create_pet st now pet = (Inr r, st\<lparr>pets_db := pets_db st @ [p]\<rparr>)
         \<and> PetResponse_id r = spec_next_id (map Pet_id (pets_db st))
         \<and> Pet_id p = spec_next_id (map Pet_id (pets_db st))"
  by (simp add: create_pet_def Let_def PetResponse_of_new next_id_spec)
    (rule exI, rule conjI, rule refl, simp)

lemma create_order_result:
  "list_ex (\<lambda>pet. Pet_id pet = OrderCreate_pet_id order) (pets_db st) \<Longrightarrow>
   list_ex (\<lambda>user. User_id user = OrderCreate_user_id order) (users_db st) \<Longrightarrow>
   \<exists>r p. create_order st now order = (Inr r, st\<lparr>orders_db := orders_db st @ [p]\<rparr>)
         \<and> OrderResponse_id r = spec_next_id (map Order_id (orders_db st))
         \<and> Order_id p = spec_next_id (map Order_id (orders_db st))"
  by (simp add: create_order_def Let_def OrderResponse_of_def next_id_spec)
    (rule exI, rule conjI, rule refl, simp)

lemma create_user_result:
  "\<not> list_ex (\<lambda>u. User_username u = UserCreate_username user) (users_db st) \<Longrightarrow>
   \<not> list_ex (\<lambda>u. User_email u = UserCreate_email user) (users_db st) \<Longrightarrow>
   \<exists>r p. create_user st now user = (Inr r, st\<lparr>users_db := users_db st @ [p]\<rparr>)
         \<and> UserResponse_id r = spec_next_id (map User_id (users_db st))
         \<and> User_id p = spec_next_id (map User_id (users_db st))"
  by (simp add: create_user_def Let_def UserResponse_of_def next_id_spec)
    (rule exI, rule conjI, rule refl, simp)

text \<open>
  C1. Creating a pet always succeeds; the id in the response and in the stored record
  is one more than the largest id in the pet list, or 1 when the list is empty, and the
  record is appended at the end of the list. An order creation that passes its two
  lookups and a user creation that passes its two uniqueness tests assign ids by the
  same rule over the order list and the user list.
\<close>

theorem C1_create_assigns_next_id:
  "(\<exists>r p. create_pet st now pet = (Inr r, st\<lparr>pets_db := pets_db st @ [p]\<rparr>)
          \<and> PetResponse_id r = spec_next_id (map Pet_id (pets_db st))
          \<and> Pet_id p = spec_next_id (map Pet_id (pets_db st)))
   \<and> (list_ex (\<lambda>pet. Pet_id pet = OrderCreate_pet_id order) (pets_db st)
        \<and> list_ex (\<lambda>user. User_id user = OrderCreate_user_id order) (users_db st)
      \<longrightarrow> (\<exists>r p. create_order st now order = (Inr r, st\<lparr>orders_db := orders_db st @ [p]\<rparr>)
             \<and> OrderResponse_id r = spec_next_id (map Order_id (orders_db st))
             \<and> Order_id p = spec_next_id (map Order_id (orders_db st))))
   \<and> (\<not> list_ex (\<lambda>u. User_username u = UserCreate_username user) (users_db st)
        \<and> \<not> list_ex (\<lambda>u. User_email u = UserCreate_email user) (users_db st)
      \<longrightarrow> (\<exists>r p. create_user st now user = (Inr r, st\<lparr>users_db := users_db st @ [p]\<rparr>)
             \<and> UserResponse_id r = spec_next_id (map User_id (users_db st))
             \<and> User_id p = spec_next_id (map User_id (users_db st))))"
  using create_pet_result [of st now pet] create_order_result [of order st now]
    create_user_result [of user st now]
  by blast

theorem C1_create_assigns_next_id_witness:
  "list_ex (\<lambda>pet. Pet_id pet = OrderCreate_pet_id order_for_buddy) (pets_db (initial_store 0))
   \<and> list_ex (\<lambda>user. User_id user = OrderCreate_user_id order_for_buddy)
        (users_db (initial_store 0))
   \<and> \<not> list_ex (\<lambda>u. User_username u = UserCreate_username newuser) (users_db (initial_store 0))
   \<and> \<not> list_ex (\<lambda>u. User_email u = UserCreate_email newuser) (users_db (initial_store 0))
   \<and> (\<exists>r. fst (create_pet (initial_store 0) 5 fluffy) = Inr r \<and> PetResponse_id r = 4)
   \<and> (\<exists>r. fst (create_order (initial_store 0) 5 order_for_buddy) = Inr r
          \<and> OrderResponse_id r = 1)
   \<and> (\<exists>r. fst (create_user (initial_store 0) 5 newuser) = Inr r \<and> UserResponse_id r = 3)"
proof -
  have h1: "list_ex (\<lambda>pet. Pet_id pet = OrderCreate_pet_id order_for_buddy)
              (pets_db (initial_store 0))"
    by (simp add: seed_defs order_for_buddy_def)
  have h2: "list_ex (\<lambda>user. User_id user = OrderCreate_user_id order_for_buddy)
              (users_db (initial_store 0))"
    by (simp add: seed_defs order_for_buddy_def)
  have h3: "\<not> list_ex (\<lambda>u. User_username u = UserCreate_username newuser)
              (users_db (initial_store 0))"
    by (simp add: seed_defs newuser_def)
  have h4: "\<not> list_ex (\<lambda>u. User_email u = UserCreate_email newuser)
              (users_db (initial_store 0))"
    by (simp add: seed_defs newuser_def)
  have n1: "spec_next_id (map Pet_id (pets_db (initial_store 0))) = 4"
    by (simp add: seed_defs spec_next_id_def)
  have n2: "spec_next_id (map Order_id (orders_db (initial_store 0))) = 1"
    by (simp add: seed_defs spec_next_id_def)
  have n3: "spec_next_id (map User_id (users_db (initial_store 0))) = 3"
    by (simp add: seed_defs spec_next_id_def)
  from C1_create_assigns_next_id [of "initial_store 0" 5 fluffy order_for_buddy newuser]
    h1 h2 h3 h4
  show ?thesis unfolding n1 n2 n3 by fastforce
qed

lemma list_ex_image: "list_ex (\<lambda>x. f x = v) xs = (v \<in> f ` set xs)"
  by (auto simp add: list_ex_iff)

lemma create_order_pet_missing:
  "OrderCreate_pet_id order \<notin> Pet_id ` set (pets_db st) \<Longrightarrow>
   create_order st now order = (Inl (HTTPException 400 ''Pet not found''), st)"
  by (simp add: create_order_def list_ex_image)

lemma create_order_user_missing:
  "OrderCreate_pet_id order \<in> Pet_id ` set (pets_db st) \<Longrightarrow>
   OrderCreate_user_id order \<notin> User_id ` set (users_db st) \<Longrightarrow>
   create_order st now order = (Inl (HTTPException 400 ''User not found''), st)"
  by (simp add: create_order_def list_ex_image)

lemma create_order_ok:
  "OrderCreate_pet_id order \<in> Pet_id ` set (pets_db st) \<Longrightarrow>
   OrderCreate_user_id order \<in> User_id ` set (users_db st) \<Longrightarrow>
   create_order st now order =
     (Inr (OrderResponse_of
        \<lparr> Order_id = spec_next_id (map Order_id (orders_db st)),
          Order_pet_id = OrderCreate_pet_id order,
          Order_user_id = OrderCreate_user_id order,
          Order_quantity = OrderCreate_quantity order,
          Order_ship_date = OrderCreate_ship_date order,
          Order_status = OrderCreate_status order,
          Order_complete = OrderCreate_complete order,
          Order_created_at = now,
          Order_updated_at = None \<rparr>),
      st\<lparr>orders_db := orders_db st @
        [\<lparr> Order_id = spec_next_id (map Order_id (orders_db st)),
          Order_pet_id = OrderCreate_pet_id order,
          Order_user_id = OrderCreate_user_id order,
          Order_quantity = OrderCreate_quantity order,
          Order_ship_date = OrderCreate_ship_date order,
          Order_status = OrderCreate_status order,
          Order_complete = OrderCreate_complete order,
          Order_created_at = now,
          Order_updated_at = None \<rparr>]\<rparr>)"
  by (simp add: create_order_def list_ex_image Let_def next_id_spec)

lemma create_user_username_taken:
  "UserCreate_username user \<in> User_username ` set (users_db st) \<Longrightarrow>
   create_user st now user = (Inl (HTTPException 400 ''Username already exists''), st)"
  by (simp add: create_user_def list_ex_image)



text \<open>
  C3. An order whose \<open>pet_id\<close> is the id of no stored pet, or whose \<open>user_id\<close> is the id
  of no stored user, is refused with status 400 (not 404) and the store is returned as
  it was; otherwise the order gets the next id and \<open>created_at = now\<close>, is appended to the
  order list, and the response carries that id, that \<open>created_at\<close>, no \<open>updated_at\<close>, and the
  six fields of the request.
\<close>

theorem C3_create_order_references:
  "(OrderCreate_pet_id order \<notin> Pet_id ` set (pets_db st)
      \<or> OrderCreate_user_id order \<notin> User_id ` set (users_db st)
    \<longrightarrow> (\<exists>e. create_order st now order = (Inl e, st)
            \<and> status_code e = 400 \<and> status_code e \<noteq> 404))
   \<and> (OrderCreate_pet_id order \<in> Pet_id ` set (pets_db st)
      \<and> OrderCreate_user_id order \<in> User_id ` set (users_db st)
    \<longrightarrow> (\<exists>r p. create_order st now order = (Inr r, st\<lparr>orders_db := orders_db st @ [p]\<rparr>)
            \<and> r = OrderResponse_of p
            \<and> Order_id p = spec_next_id (map Order_id (orders_db st))
            \<and> Order_created_at p = now
            \<and> Order_updated_at p = None
            \<and> Order_pet_id p = OrderCreate_pet_id order
            \<and> Order_user_id p = OrderCreate_user_id order
            \<and> Order_quantity p = OrderCreate_quantity order
            \<and> Order_ship_date p = OrderCreate_ship_date order
            \<and> Order_status p = OrderCreate_status order
            \<and> Order_complete p = OrderCreate_complete order
            \<and> OrderResponse_id r = spec_next_id (map Order_id (orders_db st))
            \<and> OrderResponse_created_at r = now
            \<and> OrderResponse_updated_at r = None
            \<and> OrderResponse_pet_id r = OrderCreate_pet_id order
            \<and> OrderResponse_user_id r = OrderCreate_user_id order
            \<and> OrderResponse_quantity r = OrderCreate_quantity order
            \<and> OrderResponse_ship_date r = OrderCreate_ship_date order
            \<and> OrderResponse_status r = OrderCreate_status order
            \<and> OrderResponse_complete r = OrderCreate_complete order))"
proof (intro conjI impI)
  assume "OrderCreate_pet_id order \<notin> Pet_id ` set (pets_db st)
      \<or> OrderCreate_user_id order \<notin> User_id ` set (users_db st)"
  then show "\<exists>e. create_order st now order = (Inl e, st)
            \<and> status_code e = 400 \<and> status_code e \<noteq> 404"
    using create_order_pet_missing [of order st now] create_order_user_missing [of order st now]
    by (cases "OrderCreate_pet_id order \<in> Pet_id ` set (pets_db st)") auto
next
  assume ok: "OrderCreate_pet_id order \<in> Pet_id ` set (pets_db st)
      \<and> OrderCreate_user_id order \<in> User_id ` set (users_db st)"
  let ?p = "\<lparr> Order_id = spec_next_id (map Order_id (orders_db st)),
          Order_pet_id = OrderCreate_pet_id order,
          Order_user_id = OrderCreate_user_id order,
          Order_quantity = OrderCreate_quantity order,
          Order_ship_date = OrderCreate_ship_date order,
          Order_status = OrderCreate_status order,
          Order_complete = OrderCreate_complete order,
          Order_created_at = now,
          Order_updated_at = None \<rparr>"
  from ok have "create_order st now order =
      (Inr (OrderResponse_of ?p), st\<lparr>orders_db := orders_db st @ [?p]\<rparr>)"
    by (simp add: create_order_ok)
  then show "\<exists>r p. create_order st now order = (Inr r, st\<lparr>orders_db := orders_db st @ [p]\<rparr>)
            \<and> r = OrderResponse_of p
            \<and> Order_id p = spec_next_id (map Order_id (orders_db st))
            \<and> Order_created_at p = now
            \<and> Order_updated_at p = None
            \<and> Order_pet_id p = OrderCreate_pet_id order
            \<and> Order_user_id p = OrderCreate_user_id order
            \<and> Order_quantity p = OrderCreate_quantity order
            \<and> Order_ship_date p = OrderCreate_ship_date order
            \<and> Order_status p = OrderCreate_status order
            \<and> Order_complete p = OrderCreate_complete order
            \<and> OrderResponse_id r = spec_next_id (map Order_id (orders_db st))
            \<and> OrderResponse_created_at r = now
            \<and> OrderResponse_updated_at r = None
            \<and> OrderResponse_pet_id r = OrderCreate_pet_id order
            \<and> OrderResponse_user_id r = OrderCreate_user_id order
            \<and> OrderResponse_quantity r = OrderCreate_quantity order
            \<and> OrderResponse_ship_date r = OrderCreate_ship_date order
            \<and> OrderResponse_status r = OrderCreate_status order
            \<and> OrderResponse_complete r = OrderCreate_complete order"
    by (intro exI [of _ "OrderResponse_of ?p"] exI [of _ ?p] conjI)
      (assumption, simp_all add: OrderResponse_of_def)
qed

theorem C3_create_order_references_witness:
  "OrderCreate_pet_id order_invalid_pet \<notin> Pet_id ` set (pets_db (initial_store 0))
   \<and> (\<exists>e. create_order (initial_store 0) 5 order_invalid_pet = (Inl e, initial_store 0)
          \<and> status_code e = 400)
   \<and> OrderCreate_pet_id order_for_buddy \<in> Pet_id ` set (pets_db (initial_store 0))
   \<and> OrderCreate_user_id order_for_buddy \<in> User_id ` set (users_db (initial_store 0))
   \<and> (\<exists>r p. create_order (initial_store 0) 5 order_for_buddy =
              (Inr r, (initial_store 0)\<lparr>orders_db := orders_db (initial_store 0) @ [p]\<rparr>)
          \<and> Order_created_at p = 5
          \<and> OrderResponse_created_at r = 5
          \<and> OrderResponse_pet_id r = OrderCreate_pet_id order_for_buddy
          \<and> OrderResponse_quantity r = OrderCreate_quantity order_for_buddy)"
proof -
  have h1: "OrderCreate_pet_id order_invalid_pet \<notin> Pet_id ` set (pets_db (initial_store 0))"
    by (simp add: seed_defs order_invalid_pet_def)
  have h2: "OrderCreate_pet_id order_for_buddy \<in> Pet_id ` set (pets_db (initial_store 0))"
    by (simp add: seed_defs order_for_buddy_def)
  have h3: "OrderCreate_user_id order_for_buddy \<in> User_id ` set (users_db (initial_store 0))"
    by (simp add: seed_defs order_for_buddy_def)
  from C3_create_order_references [of order_invalid_pet "initial_store 0" 5] h1
  have a: "\<exists>e. create_order (initial_store 0) 5 order_invalid_pet = (Inl e, initial_store 0)
          \<and> status_code e = 400"
    by blast
  from C3_create_order_references [of order_for_buddy "initial_store 0" 5] h2 h3
  have b: "\<exists>r p. create_order (initial_store 0) 5 order_for_buddy =
              (Inr r, (initial_store 0)\<lparr>orders_db := orders_db (initial_store 0) @ [p]\<rparr>)
          \<and> Order_created_at p = 5
          \<and> OrderResponse_created_at r = 5
          \<and> OrderResponse_pet_id r = OrderCreate_pet_id order_for_buddy
          \<and> OrderResponse_quantity r = OrderCreate_quantity order_for_buddy"
    by blast
  from h1 a h2 h3 b show ?thesis by (intro conjI)
qed




text \<open>
  C10. \<open>create_order\<close> looks the pet up before the user: an unknown \<open>pet_id\<close> gives the
  detail "Pet not found" whatever the \<open>user_id\<close>, and "User not found" is the outcome
  exactly when the pet is stored and the user is not. \<open>create_user\<close> compares the
  username before the email: a taken username gives "Username already exists" whatever
  the email, and "Email already exists" is the outcome exactly when the username is free
  and the email is taken.
\<close>

theorem C10_check_order:
  "(OrderCreate_pet_id order \<notin> Pet_id ` set (pets_db st)
    \<longrightarrow> fst (create_order st now order) = Inl (HTTPException 400 ''Pet not found''))
   \<and> (fst (create_order st now order) = Inl (HTTPException 400 ''User not found'')
    \<longleftrightarrow> OrderCreate_pet_id order \<in> Pet_id ` set (pets_db st)
        \<and> OrderCreate_user_id order \<notin> User_id ` set (users_db st))
   \<and> (UserCreate_username user \<in> User_username ` set (users_db st)
    \<longrightarrow> fst (create_user st now user) = Inl (HTTPException 400 ''Username already exists''))
   \<and> (fst (create_user st now user) = Inl (HTTPException 400 ''Email already exists'')
    \<longleftrightarrow> UserCreate_username user \<notin> User_username ` set (users_db st)
        \<and> UserCreate_email user \<in> User_email ` set (users_db st))"
proof (intro conjI)
  show "OrderCreate_pet_id order \<notin> Pet_id ` set (pets_db st)
    \<longrightarrow> fst (create_order st now order) = Inl (HTTPException 400 ''Pet not found'')"
    by (simp add: create_order_pet_missing)
  show "fst (create_order st now order) = Inl (HTTPException 400 ''User not found'')
    \<longleftrightarrow> OrderCreate_pet_id order \<in> Pet_id ` set (pets_db st)
        \<and> OrderCreate_user_id order \<notin> User_id ` set (users_db st)"
    by (simp add: create_order_def list_ex_image Let_def)
  show "UserCreate_username user \<in> User_username ` set (users_db st)
    \<longrightarrow> fst (create_user st now user) = Inl (HTTPException 400 ''Username already exists'')"
    by (simp add: create_user_username_taken)
  show "fst (create_user st now user) = Inl (HTTPException 400 ''Email already exists'')
    \<longleftrightarrow> UserCreate_username user \<notin> User_username ` set (users_db st)
        \<and> UserCreate_email user \<in> User_email ` set (users_db st)"
    by (simp add: create_user_def list_ex_image Let_def)
qed

theorem C10_check_order_witness:
  "OrderCreate_pet_id order_both_missing \<notin> Pet_id ` set (pets_db (initial_store 0))
   \<and> OrderCreate_user_id order_both_missing \<notin> User_id ` set (users_db (initial_store 0))
   \<and> fst (create_order (initial_store 0) 5 order_both_missing)
       = Inl (HTTPException 400 ''Pet not found'')
   \<and> UserCreate_username duplicate_both \<in> User_username ` set (users_db (initial_store 0))
   \<and> UserCreate_email duplicate_both \<in> User_email ` set (users_db (initial_store 0))
   \<and> fst (create_user (initial_store 0) 5 duplicate_both)
       = Inl (HTTPException 400 ''Username already exists'')"
proof -
  have h1: "OrderCreate_pet_id order_both_missing \<notin> Pet_id ` set (pets_db (initial_store 0))"
    by (simp add: seed_defs order_both_missing_def)
  have h2: "OrderCreate_user_id order_both_missing
              \<notin> User_id ` set (users_db (initial_store 0))"
    by (simp add: seed_defs order_both_missing_def)
  have h3: "UserCreate_username duplicate_both
              \<in> User_username ` set (users_db (initial_store 0))"
    by (simp add: seed_defs duplicate_both_def)
  have h4: "UserCreate_email duplicate_both \<in> User_email ` set (users_db (initial_store 0))"
    by (simp add: seed_defs duplicate_both_def)
  from C10_check_order [of order_both_missing "initial_store 0" 5 duplicate_both]
    h1 h2 h3 h4
  show ?thesis by blast
qed


section \<open>Scanning a list for the first match\<close>

lemma first_index_None: "first_index P xs = None \<longleftrightarrow> (\<forall>x\<in>set xs. \<not> P x)"
  by (induction xs) auto

lemma first_index_Some:
  "first_index P xs = Some i \<Longrightarrow> i < length xs \<and> P (xs ! i) \<and> (\<forall>j<i. \<not> P (xs ! j))"
proof (induction xs arbitrary: i)
  case Nil
  then show ?case by simp
next
  case (Cons x xs)
  show ?case
  proof (cases "P x")
    case True
    with Cons.prems show ?thesis by simp
  next
    case False
    with Cons.prems obtain k where k: "first_index P xs = Some k" "i = Suc k"
      by auto
    from Cons.IH [OF k(1)] False k(2) show ?thesis
      by (auto simp add: nth_Cons split: nat.splits)
  qed
qed

lemma first_index_distinct:
  "distinct (map f xs) \<Longrightarrow> i < length xs \<Longrightarrow> first_index (\<lambda>x. f x = f (xs ! i)) xs = Some i"
proof (induction xs arbitrary: i)
  case Nil
  then show ?case by simp
next
  case (Cons x xs)
  show ?case
  proof (cases i)
    case 0
    then show ?thesis by simp
  next
    case (Suc k)
    with Cons.prems have k: "k < length xs" and d: "distinct (map f xs)" by auto
    from Cons.prems k have "f x \<noteq> f (xs ! k)" by auto
    with Cons.IH [OF d k] Suc show ?thesis by simp
  qed
qed

lemma delete_first_filter:
  "distinct (map f xs) \<Longrightarrow> first_index (\<lambda>x. f x = v) xs = Some i \<Longrightarrow>
   take i xs @ drop (Suc i) xs = filter (\<lambda>x. f x \<noteq> v) xs"
proof (induction xs arbitrary: i)
  case Nil
  then show ?case by simp
next
  case (Cons x xs)
  show ?case
  proof (cases "f x = v")
    case True
    with Cons.prems have "i = 0" by simp
    moreover from Cons.prems have "f x \<notin> f ` set xs" by simp
    with True have "\<forall>y\<in>set xs. f y \<noteq> v" by blast
    then have "filter (\<lambda>x. f x \<noteq> v) xs = xs" by (simp add: filter_id_conv)
    ultimately show ?thesis using True by simp
  next
    case False
    with Cons.prems obtain k where k: "first_index (\<lambda>x. f x = v) xs = Some k" "i = Suc k"
      by auto
    from Cons.prems have "distinct (map f xs)" by simp
    from Cons.IH [OF this k(1)] False k(2) show ?thesis by simp
  qed
qed

lemma find_first_index:
  "find P xs = (case first_index P xs of None \<Rightarrow> None | Some i \<Rightarrow> Some (xs ! i))"
  by (induction xs) (auto split: option.splits)

section \<open>The ids a request leaves behind\<close>

lemma update_pet_ids:
  "map Pet_id (pets_db (snd (update_pet st now pet_id pet_update))) = map Pet_id (pets_db st)"
proof (cases "first_index (\<lambda>pet. Pet_id pet = pet_id) (pets_db st)")
  case None
  then show ?thesis by (simp add: update_pet_def)
next
  case (Some i)
  then have "i < length (pets_db st)" by (simp add: first_index_Some)
  then have "(map Pet_id (pets_db st))[i := Pet_id (pets_db st ! i)] = map Pet_id (pets_db st)"
    by (metis list_update_id nth_map)
  with Some show ?thesis
    by (cases pet_update) (simp_all add: update_pet_def Let_def copy_update_def map_update)
qed

lemma update_pet_others:
  "orders_db (snd (update_pet st now pet_id pet_update)) = orders_db st
   \<and> users_db (snd (update_pet st now pet_id pet_update)) = users_db st"
  by (simp add: update_pet_def Let_def split: option.splits)

lemma handle_ids:
  "(ids_of c (handle st now req) = ids_of c st @ [py_max_default (ids_of c st) 0 + 1]
      \<and> created_id st now req = Some (c, py_max_default (ids_of c st) 0 + 1))
   \<or> ((\<exists>i. ids_of c (handle st now req) = take i (ids_of c st) @ drop (Suc i) (ids_of c st))
      \<and> is_delete c req \<and> created_id st now req = None)
   \<or> (ids_of c (handle st now req) = ids_of c st \<and> (\<forall>n. created_id st now req \<noteq> Some (c, n)))"
proof (cases req)
  case (CreatePet pet)
  then show ?thesis
    by (cases c) (simp_all add: create_pet_def Let_def PetResponse_of_new)
next
  case (UpdatePet pet_id pet_update)
  then show ?thesis
    by (cases c) (simp_all add: update_pet_ids update_pet_others)
next
  case (DeletePet pet_id)
  then show ?thesis
    by (cases c) (auto simp add: delete_pet_def take_map drop_map split: option.splits)
next
  case (CreateOrder order)
  then show ?thesis
    by (cases c) (simp_all add: create_order_def Let_def OrderResponse_of_def)
next
  case (DeleteOrder order_id)
  then show ?thesis
    by (cases c) (auto simp add: delete_order_def take_map drop_map split: option.splits)
next
  case (CreateUser user)
  then show ?thesis
    by (cases c) (simp_all add: create_user_def Let_def UserResponse_of_def)
next
  case (DeleteUser user_id)
  then show ?thesis
    by (cases c) (auto simp add: delete_user_def take_map drop_map split: option.splits)
qed

section \<open>Ids stay strictly increasing along each list\<close>

lemma sorted_next_id: "sorted_wrt (<) xs \<Longrightarrow> sorted_wrt (<) (xs @ [py_max_default xs 0 + 1])"
  using next_id_greater [of _ xs] by (auto simp add: sorted_wrt_append)

lemma sorted_delete_nth:
  "sorted_wrt (<) (xs :: int list) \<Longrightarrow> sorted_wrt (<) (take i xs @ drop (Suc i) xs)"
proof -
  assume s: "sorted_wrt (<) xs"
  then have "sorted_wrt (<) (take i xs @ drop i xs)" by simp
  then have "\<forall>x\<in>set (take i xs). \<forall>y\<in>set (drop i xs). x < y"
    unfolding sorted_wrt_append by blast
  moreover have "set (drop (Suc i) xs) \<subseteq> set (drop i xs)"
    by (rule set_drop_subset_set_drop) simp
  ultimately have "\<forall>x\<in>set (take i xs). \<forall>y\<in>set (drop (Suc i) xs). x < y" by blast
  with s show ?thesis
    by (simp add: sorted_wrt_append sorted_wrt_take sorted_wrt_drop)
qed

lemma initial_sorted: "sorted_wrt (<) (ids_of c (initial_store now))"
  by (cases c) (simp_all add: seed_defs)

lemma handle_sorted:
  "sorted_wrt (<) (ids_of c st) \<Longrightarrow> sorted_wrt (<) (ids_of c (handle st now req))"
  using handle_ids [of c st now req] sorted_next_id [of "ids_of c st"]
    sorted_delete_nth [of "ids_of c st"]
  by auto

lemma reachable_sorted: "reachable st \<Longrightarrow> sorted_wrt (<) (ids_of c st)"
  by (induction rule: reachable.induct) (simp_all add: initial_sorted handle_sorted)

lemma reachable_distinct: "reachable st \<Longrightarrow> distinct (ids_of c st)"
  using reachable_sorted [of st c] by (simp add: strict_sorted_iff)

lemma reachable_distinct_pets: "reachable st \<Longrightarrow> distinct (map Pet_id (pets_db st))"
  using reachable_distinct [of st Pets] by simp

lemma created_id_greater:
  "created_id st now req = Some (c, n) \<Longrightarrow> m \<in> set (ids_of c st) \<Longrightarrow> m < n"
  using handle_ids [of c st now req] next_id_greater [of m "ids_of c st"] by auto

lemma assigned_ids_increasing:
  "\<forall>(now, req)\<in>set reqs. \<not> is_delete c req \<Longrightarrow>
   sorted_wrt (<) (assigned_ids c st reqs)
   \<and> (\<forall>n\<in>set (assigned_ids c st reqs). \<forall>m\<in>set (ids_of c st). m < n)"
proof (induction reqs arbitrary: st)
  case Nil
  then show ?case by simp
next
  case (Cons a reqs)
  obtain now req where a: "a = (now, req)" by (cases a)
  from Cons.prems a have nd: "\<not> is_delete c req"
    and rest: "\<forall>(now, req)\<in>set reqs. \<not> is_delete c req" by auto
  let ?st' = "handle st now req"
  from Cons.IH [OF rest, of ?st']
  have ih1: "sorted_wrt (<) (assigned_ids c ?st' reqs)"
    and ih2: "\<forall>n\<in>set (assigned_ids c ?st' reqs). \<forall>m\<in>set (ids_of c ?st'). m < n"
    by blast+
  from handle_ids [of c st now req] nd
  consider
    (created) "ids_of c ?st' = ids_of c st @ [py_max_default (ids_of c st) 0 + 1]"
      "created_id st now req = Some (c, py_max_default (ids_of c st) 0 + 1)"
  | (same) "ids_of c ?st' = ids_of c st" "\<forall>n. created_id st now req \<noteq> Some (c, n)"
    by blast
  then show ?case
  proof cases
    case created
    let ?n = "py_max_default (ids_of c st) 0 + 1"
    have eq: "assigned_ids c st (a # reqs) = ?n # assigned_ids c ?st' reqs"
      using a created(2) by simp
    have gt: "\<forall>m\<in>set (ids_of c st). m < ?n" using next_id_greater by blast
    from ih2 created(1) have "\<forall>k\<in>set (assigned_ids c ?st' reqs). ?n < k" by simp
    moreover from ih2 created(1)
    have "\<forall>k\<in>set (assigned_ids c ?st' reqs). \<forall>m\<in>set (ids_of c st). m < k" by simp
    ultimately show ?thesis using ih1 gt unfolding eq by simp
  next
    case same
    have eq: "assigned_ids c st (a # reqs) = assigned_ids c ?st' reqs"
      using a same(2) by (auto split: option.splits)
    show ?thesis using ih1 ih2 same(1) unfolding eq by simp
  qed
qed

section \<open>Reuse and order of assigned ids\<close>

lemmas handler_defs = create_pet_def delete_pet_def PetResponse_of_def fluffy_def

text \<open>
  The statement that an id, once assigned, is never assigned again fails: from the
  seeded store, creating a pet (id 4), deleting pet 4 and creating a pet again assigns
  4 twice.
\<close>

theorem C5_id_reused_counterexample:
  "assigned_ids Pets (initial_store 0)
     [(1, CreatePet fluffy), (2, DeletePet 4), (3, CreatePet fluffy)] = [4, 4]"
  by (simp add: seed_defs handler_defs)

lemma first_index_last:
  "\<forall>x\<in>set xs. \<not> P x \<Longrightarrow> P y \<Longrightarrow> first_index P (xs @ [y]) = Some (length xs)"
  by (induction xs) simp_all

lemma created_id_rule:
  "created_id st now req = Some (c, n) \<Longrightarrow> n = spec_next_id (ids_of c st)"
  using handle_ids [of c st now req] by (auto simp add: next_id_spec)

lemma create_delete_pet:
  "snd (delete_pet (snd (create_pet st t1 a)) t2 (spec_next_id (map Pet_id (pets_db st)))) = st"
proof -
  let ?n = "spec_next_id (map Pet_id (pets_db st))"
  obtain r p where c: "create_pet st t1 a = (Inr r, st\<lparr>pets_db := pets_db st @ [p]\<rparr>)"
    and p: "Pet_id p = ?n"
    using create_pet_result [of st t1 a] by blast
  have "\<forall>x\<in>set (pets_db st). \<not> Pet_id x = ?n"
  proof
    fix x assume "x \<in> set (pets_db st)"
    then have "Pet_id x \<in> set (map Pet_id (pets_db st))" by simp
    then have "Pet_id x < py_max_default (map Pet_id (pets_db st)) 0 + 1"
      by (rule next_id_greater)
    then have "Pet_id x < ?n" by (simp only: next_id_spec)
    then show "\<not> Pet_id x = ?n" by simp
  qed
  with p have "first_index (\<lambda>pet. Pet_id pet = ?n) (pets_db st @ [p]) = Some (length (pets_db st))"
    by (intro first_index_last) simp_all
  then show ?thesis by (simp add: c delete_pet_def)
qed

lemma create_pet_created_id:
  "created_id st now (CreatePet a) = Some (Pets, spec_next_id (map Pet_id (pets_db st)))"
  using create_pet_result [of st now a] by auto

lemma delete_pet_created_id: "created_id st now (DeletePet pet_id) = None"
  by simp

text \<open>
  C5 (as amended). In every store and for every request, the id that a successful
  creation assigns in a collection is one more than the largest id held by a record of
  that collection at that moment (1 when there is none); so it is greater than every id
  present and never the id of a record that is present. Ids of deleted records are not
  set aside: from every store, creating a pet, deleting the pet just created and
  creating a pet again assigns the same id twice.
\<close>

theorem C5_next_id_rule:
  "(created_id st now req = Some (c, n) \<longrightarrow>
      n = spec_next_id (ids_of c st)
      \<and> n \<notin> set (ids_of c st) \<and> (\<forall>m\<in>set (ids_of c st). m < n))
   \<and> assigned_ids Pets st
        [(t1, CreatePet a), (t2, DeletePet (spec_next_id (ids_of Pets st))), (t3, CreatePet b)]
      = [spec_next_id (ids_of Pets st), spec_next_id (ids_of Pets st)]"
proof (intro conjI impI)
  assume h: "created_id st now req = Some (c, n)"
  then show "n = spec_next_id (ids_of c st)" by (rule created_id_rule)
  from h created_id_greater [of st now req c n]
  show "n \<notin> set (ids_of c st)" by auto
  from h created_id_greater [of st now req c n]
  show "\<forall>m\<in>set (ids_of c st). m < n" by auto
next
  show "assigned_ids Pets st
        [(t1, CreatePet a), (t2, DeletePet (spec_next_id (ids_of Pets st))), (t3, CreatePet b)]
      = [spec_next_id (ids_of Pets st), spec_next_id (ids_of Pets st)]"
    by (simp add: create_pet_created_id delete_pet_created_id create_delete_pet
        del: created_id.simps)
qed

theorem C5_next_id_rule_witness:
  "created_id (initial_store 0) 1 (CreatePet fluffy) = Some (Pets, 4)
   \<and> spec_next_id (ids_of Pets (initial_store 0)) = 4
   \<and> 4 \<notin> set (ids_of Pets (initial_store 0))
   \<and> list_all (\<lambda>m. m < 4) (ids_of Pets (initial_store 0))"
proof -
  have h: "created_id (initial_store 0) 1 (CreatePet fluffy) = Some (Pets, 4)"
    by (simp add: seed_defs handler_defs)
  from C5_next_id_rule [where st = "initial_store 0" and now = 1 and req = "CreatePet fluffy"
      and c = Pets and n = 4] h
  have "4 = spec_next_id (ids_of Pets (initial_store 0))"
    and "4 \<notin> set (ids_of Pets (initial_store 0))"
    and "\<forall>m\<in>set (ids_of Pets (initial_store 0)). m < 4"
    by blast+
  with h show ?thesis unfolding list_all_iff by simp
qed

text \<open>
  The statement that the ids assigned by successive creations never decrease fails:
  from the seeded store, two creations (4 and 5), the deletion of 5 and of 4, and a
  third creation assign 4, 5, 4.
\<close>

theorem C6_assigned_ids_decrease_counterexample:
  "\<not> sorted (assigned_ids Pets (initial_store 0)
       [(1, CreatePet fluffy), (2, CreatePet fluffy), (3, DeletePet 5), (4, DeletePet 4),
        (5, CreatePet fluffy)])"
  by (simp add: seed_defs handler_defs)

text \<open>
  C6 (as amended). In every store reachable from the seeded one the ids within the pet
  list, the order list and the user list are pairwise distinct, and along each list
  they are strictly increasing (a record created later stands later and has the larger
  id); and over any sequence of requests that deletes nothing from a collection, the
  ids assigned by the successive creations in that collection are strictly increasing.
\<close>

theorem C6_ids_distinct_increasing:
  "reachable st \<Longrightarrow>
     distinct (map Pet_id (pets_db st))
     \<and> distinct (map Order_id (orders_db st))
     \<and> distinct (map User_id (users_db st))
     \<and> sorted_wrt (<) (ids_of c st)
     \<and> ((\<forall>(now, req)\<in>set reqs. \<not> is_delete c req) \<longrightarrow>
          sorted_wrt (<) (assigned_ids c st reqs))"
  using reachable_distinct [of st Pets] reachable_distinct [of st Orders]
    reachable_distinct [of st Users] reachable_sorted [of st c]
    assigned_ids_increasing [of reqs c st]
  by simp

theorem C6_ids_distinct_increasing_witness:
  "reachable (initial_store 0)
   \<and> list_all (\<lambda>(now, req). \<not> is_delete Pets req)
        [(1::int, CreatePet fluffy), (2, CreatePet fluffy)]
   \<and> distinct (map Pet_id (pets_db (initial_store 0)))
   \<and> sorted_wrt (<) (ids_of Pets (initial_store 0))
   \<and> assigned_ids Pets (initial_store 0) [(1, CreatePet fluffy), (2, CreatePet fluffy)] = [4, 5]
   \<and> sorted_wrt (<) (assigned_ids Pets (initial_store 0)
         [(1, CreatePet fluffy), (2, CreatePet fluffy)])"
proof -
  have h1: "reachable (initial_store 0)" by (rule reachable.initial)
  have h2: "\<forall>(now, req)\<in>set [(1::int, CreatePet fluffy), (2, CreatePet fluffy)].
              \<not> is_delete Pets req"
    by simp
  have v: "assigned_ids Pets (initial_store 0) [(1, CreatePet fluffy), (2, CreatePet fluffy)]
             = [4, 5]"
    by (simp add: seed_defs handler_defs)
  from C6_ids_distinct_increasing [OF h1, of Pets "[(1, CreatePet fluffy), (2, CreatePet fluffy)]"]
    h1 h2 v
  show ?thesis by simp
qed

section \<open>Deleting a pet\<close>

lemma delete_pet_absent:
  "pet_id \<notin> Pet_id ` set (pets_db st) \<Longrightarrow>
   delete_pet st now pet_id = (Inl (HTTPException 404 ''Pet not found''), st)"
proof -
  assume "pet_id \<notin> Pet_id ` set (pets_db st)"
  then have "\<forall>x\<in>set (pets_db st). \<not> Pet_id x = pet_id" by blast
  then have "first_index (\<lambda>pet. Pet_id pet = pet_id) (pets_db st) = None"
    by (simp add: first_index_None)
  then show ?thesis by (simp add: delete_pet_def)
qed

lemma get_pet_absent:
  "pet_id \<notin> Pet_id ` set (pets_db st) \<Longrightarrow>
   get_pet st pet_id = Inl (HTTPException 404 ''Pet not found'')"
proof -
  assume "pet_id \<notin> Pet_id ` set (pets_db st)"
  then have "\<not> (\<exists>x. x \<in> set (pets_db st) \<and> Pet_id x = pet_id)" by blast
  then have "find (\<lambda>pet. Pet_id pet = pet_id) (pets_db st) = None"
    by (simp add: find_None_iff)
  then show ?thesis by (simp add: get_pet_def)
qed

lemma delete_pet_present:
  assumes d: "distinct (map Pet_id (pets_db st))"
    and m: "pet_id \<in> Pet_id ` set (pets_db st)"
  shows "delete_pet st now pet_id =
           (Inr \<lparr> ApiResponse_code = 200, ApiResponse_type = ''success'',
                  ApiResponse_message = ''Pet '' @ str_int pet_id @ '' deleted successfully'',
                  ApiResponse_timestamp = now \<rparr>,
            st\<lparr>pets_db := filter (\<lambda>p. Pet_id p \<noteq> pet_id) (pets_db st)\<rparr>)"
    and "length (pets_db st) = Suc (length (filter (\<lambda>p. Pet_id p \<noteq> pet_id) (pets_db st)))"
proof -
  from m have "\<not> (\<forall>x\<in>set (pets_db st). \<not> Pet_id x = pet_id)" by blast
  then have "first_index (\<lambda>pet. Pet_id pet = pet_id) (pets_db st) \<noteq> None"
    by (simp add: first_index_None)
  then obtain i where i: "first_index (\<lambda>pet. Pet_id pet = pet_id) (pets_db st) = Some i"
    by blast
  from delete_first_filter [OF d i]
  have f: "take i (pets_db st) @ drop (Suc i) (pets_db st)
             = filter (\<lambda>p. Pet_id p \<noteq> pet_id) (pets_db st)" .
  from i f show "delete_pet st now pet_id =
           (Inr \<lparr> ApiResponse_code = 200, ApiResponse_type = ''success'',
                  ApiResponse_message = ''Pet '' @ str_int pet_id @ '' deleted successfully'',
                  ApiResponse_timestamp = now \<rparr>,
            st\<lparr>pets_db := filter (\<lambda>p. Pet_id p \<noteq> pet_id) (pets_db st)\<rparr>)"
    by (simp add: delete_pet_def)
  from first_index_Some [OF i] have "i < length (pets_db st)" by blast
  then have "length (take i (pets_db st) @ drop (Suc i) (pets_db st)) + 1 = length (pets_db st)"
    by simp
  with f show "length (pets_db st) = Suc (length (filter (\<lambda>p. Pet_id p \<noteq> pet_id) (pets_db st)))"
    by simp
qed

text \<open>
  C9. In every reachable store, deleting a pet by an id that no stored pet has is
  refused with 404 and changes nothing; deleting by an id that is present returns the
  acknowledgement, removes the one record with that id (the other pets stay, in their
  order), leaves the order list and the user list as they were, and a following
  \<open>get_pet\<close> of the same id is refused with 404.
\<close>

theorem C9_delete_pet:
  "reachable st \<Longrightarrow>
     (pet_id \<notin> Pet_id ` set (pets_db st) \<longrightarrow>
        delete_pet st now pet_id = (Inl (HTTPException 404 ''Pet not found''), st))
     \<and> (pet_id \<in> Pet_id ` set (pets_db st) \<longrightarrow>
          (\<exists>r. fst (delete_pet st now pet_id) = Inr r \<and> ApiResponse_code r = 200)
          \<and> pets_db (snd (delete_pet st now pet_id))
               = filter (\<lambda>p. Pet_id p \<noteq> pet_id) (pets_db st)
          \<and> length (pets_db st) = Suc (length (pets_db (snd (delete_pet st now pet_id))))
          \<and> orders_db (snd (delete_pet st now pet_id)) = orders_db st
          \<and> users_db (snd (delete_pet st now pet_id)) = users_db st
          \<and> get_pet (snd (delete_pet st now pet_id)) pet_id
               = Inl (HTTPException 404 ''Pet not found''))"
proof (intro conjI impI)
  assume "pet_id \<notin> Pet_id ` set (pets_db st)"
  then show "delete_pet st now pet_id = (Inl (HTTPException 404 ''Pet not found''), st)"
    by (rule delete_pet_absent)
next
  assume r: "reachable st" and m: "pet_id \<in> Pet_id ` set (pets_db st)"
  from r have d: "distinct (map Pet_id (pets_db st))" by (rule reachable_distinct_pets)
  note del = delete_pet_present(1) [OF d m, of now] delete_pet_present(2) [OF d m]
  show "\<exists>r. fst (delete_pet st now pet_id) = Inr r \<and> ApiResponse_code r = 200"
    by (simp add: del(1))
  show "pets_db (snd (delete_pet st now pet_id)) = filter (\<lambda>p. Pet_id p \<noteq> pet_id) (pets_db st)"
    by (simp add: del(1))
  show "length (pets_db st) = Suc (length (pets_db (snd (delete_pet st now pet_id))))"
    using del(2) by (simp add: del(1))
  show "orders_db (snd (delete_pet st now pet_id)) = orders_db st"
    by (simp add: del(1))
  show "users_db (snd (delete_pet st now pet_id)) = users_db st"
    by (simp add: del(1))
  have "pet_id \<notin> Pet_id ` set (pets_db (snd (delete_pet st now pet_id)))"
    by (auto simp add: del(1))
  then show "get_pet (snd (delete_pet st now pet_id)) pet_id
               = Inl (HTTPException 404 ''Pet not found'')"
    by (rule get_pet_absent)
qed

theorem C9_delete_pet_witness:
  "reachable (initial_store 0)
   \<and> 999 \<notin> Pet_id ` set (pets_db (initial_store 0))
   \<and> delete_pet (initial_store 0) 5 999
       = (Inl (HTTPException 404 ''Pet not found''), initial_store 0)
   \<and> 1 \<in> Pet_id ` set (pets_db (initial_store 0))
   \<and> map Pet_id (pets_db (snd (delete_pet (initial_store 0) 5 1))) = [2, 3]
   \<and> get_pet (snd (delete_pet (initial_store 0) 5 1)) 1
       = Inl (HTTPException 404 ''Pet not found'')"
proof -
  have h1: "reachable (initial_store 0)" by (rule reachable.initial)
  have h2: "999 \<notin> Pet_id ` set (pets_db (initial_store 0))" by (simp add: seed_defs)
  have h3: "1 \<in> Pet_id ` set (pets_db (initial_store 0))" by (simp add: seed_defs)
  have v: "map Pet_id (filter (\<lambda>p. Pet_id p \<noteq> 1) (pets_db (initial_store 0))) = [2, 3]"
    by (simp add: seed_defs)
  have a: "delete_pet (initial_store 0) 5 999
             = (Inl (HTTPException 404 ''Pet not found''), initial_store 0)"
    using C9_delete_pet [OF h1, of 999 5] h2 by blast
  have b: "pets_db (snd (delete_pet (initial_store 0) 5 1))
             = filter (\<lambda>p. Pet_id p \<noteq> 1) (pets_db (initial_store 0))"
    using C9_delete_pet [OF h1, of 1 5] h3 by blast
  have c: "get_pet (snd (delete_pet (initial_store 0) 5 1)) 1
             = Inl (HTTPException 404 ''Pet not found'')"
    using C9_delete_pet [OF h1, of 1 5] h3 by blast
  have v2: "map Pet_id (pets_db (snd (delete_pet (initial_store 0) 5 1))) = [2, 3]"
    by (simp only: b v)
  from h1 h2 a h3 v2 c show ?thesis by (intro conjI)
qed

section \<open>Updating a pet\<close>

lemma update_pet_at:
  assumes d: "distinct (map Pet_id (pets_db st))" and i: "i < length (pets_db st)"
  shows "update_pet st now (Pet_id (pets_db st ! i)) (Some u) =
           (PetResponse_of ((copy_update (pets_db st ! i) u)\<lparr>Pet_updated_at := Some now\<rparr>),
            st\<lparr>pets_db := (pets_db st)[i := (copy_update (pets_db st ! i) u)
                                              \<lparr>Pet_updated_at := Some now\<rparr>]\<rparr>)"
proof -
  from first_index_distinct [OF d i]
  have "first_index (\<lambda>pet. Pet_id pet = Pet_id (pets_db st ! i)) (pets_db st) = Some i" .
  then show ?thesis by (simp add: update_pet_def Let_def)
qed

text \<open>
  C2. In every reachable store, updating the pet \<open>p\<close> at position \<open>i\<close> with a payload
  \<open>u\<close> writes a record \<open>p'\<close> back at position \<open>i\<close> (all other positions and the other two
  lists are untouched) in which each of the seven payload fields holds the payload's
  value when the body set it and its old value when the body left it out; \<open>id\<close> and
  \<open>created_at\<close> are the old ones; \<open>updated_at\<close> is the handler's clock reading, which is
  not before the previous \<open>updated_at\<close> whenever the clock has not gone back since.
\<close>

theorem C2_update_pet:
  "reachable st \<Longrightarrow> i < length (pets_db st) \<Longrightarrow> p = pets_db st ! i \<Longrightarrow>
   \<exists>p'. update_pet st now (Pet_id p) (Some u)
           = (PetResponse_of p', st\<lparr>pets_db := (pets_db st)[i := p']\<rparr>)
        \<and> Pet_name p' = (case PetUpdate_name u of Unset \<Rightarrow> Pet_name p | Given v \<Rightarrow> v)
        \<and> Pet_category p'
            = (case PetUpdate_category u of Unset \<Rightarrow> Pet_category p | Given v \<Rightarrow> v)
        \<and> Pet_status p' = (case PetUpdate_status u of Unset \<Rightarrow> Pet_status p | Given v \<Rightarrow> v)
        \<and> Pet_tags p' = (case PetUpdate_tags u of Unset \<Rightarrow> Pet_tags p | Given v \<Rightarrow> v)
        \<and> Pet_price p' = (case PetUpdate_price u of Unset \<Rightarrow> Pet_price p | Given v \<Rightarrow> v)
        \<and> Pet_description p'
            = (case PetUpdate_description u of Unset \<Rightarrow> Pet_description p | Given v \<Rightarrow> v)
        \<and> Pet_photo_urls p'
            = (case PetUpdate_photo_urls u of Unset \<Rightarrow> Pet_photo_urls p | Given v \<Rightarrow> v)
        \<and> Pet_id p' = Pet_id p
        \<and> Pet_created_at p' = Pet_created_at p
        \<and> Pet_updated_at p' = Some now
        \<and> (\<forall>t. Pet_updated_at p = Some t \<and> t \<le> now \<longrightarrow>
              (\<exists>t'. Pet_updated_at p' = Some t' \<and> t \<le> t'))"
proof -
  assume r: "reachable st" and i: "i < length (pets_db st)" and p: "p = pets_db st ! i"
  from r have d: "distinct (map Pet_id (pets_db st))" by (rule reachable_distinct_pets)
  let ?p' = "(copy_update p u)\<lparr>Pet_updated_at := Some now\<rparr>"
  have "update_pet st now (Pet_id p) (Some u)
          = (PetResponse_of ?p', st\<lparr>pets_db := (pets_db st)[i := ?p']\<rparr>)"
    unfolding p by (rule update_pet_at [OF d i])
  moreover have "Pet_name ?p' = (case PetUpdate_name u of Unset \<Rightarrow> Pet_name p | Given v \<Rightarrow> v)"
    by (simp add: copy_update_def merge_field_def)
  moreover have "Pet_category ?p'
            = (case PetUpdate_category u of Unset \<Rightarrow> Pet_category p | Given v \<Rightarrow> v)"
    by (simp add: copy_update_def merge_field_def)
  moreover have "Pet_status ?p'
            = (case PetUpdate_status u of Unset \<Rightarrow> Pet_status p | Given v \<Rightarrow> v)"
    by (simp add: copy_update_def merge_field_def)
  moreover have "Pet_tags ?p' = (case PetUpdate_tags u of Unset \<Rightarrow> Pet_tags p | Given v \<Rightarrow> v)"
    by (simp add: copy_update_def merge_field_def)
  moreover have "Pet_price ?p' = (case PetUpdate_price u of Unset \<Rightarrow> Pet_price p | Given v \<Rightarrow> v)"
    by (simp add: copy_update_def merge_field_def)
  moreover have "Pet_description ?p'
            = (case PetUpdate_description u of Unset \<Rightarrow> Pet_description p | Given v \<Rightarrow> v)"
    by (simp add: copy_update_def merge_field_def)
  moreover have "Pet_photo_urls ?p'
            = (case PetUpdate_photo_urls u of Unset \<Rightarrow> Pet_photo_urls p | Given v \<Rightarrow> v)"
    by (simp add: copy_update_def merge_field_def)
  moreover have "Pet_id ?p' = Pet_id p" by (simp add: copy_update_def)
  moreover have "Pet_created_at ?p' = Pet_created_at p" by (simp add: copy_update_def)
  moreover have "Pet_updated_at ?p' = Some now" by simp
  moreover have "\<forall>t. Pet_updated_at p = Some t \<and> t \<le> now \<longrightarrow>
              (\<exists>t'. Pet_updated_at ?p' = Some t' \<and> t \<le> t')" by simp
  ultimately show ?thesis by blast
qed

theorem C2_update_pet_witness:
  "reachable (handle (initial_store 0) 3 (UpdatePet 1 (Some buddy_update)))
   \<and> 0 < length (pets_db (handle (initial_store 0) 3 (UpdatePet 1 (Some buddy_update))))
   \<and> Pet_updated_at (pets_db (handle (initial_store 0) 3 (UpdatePet 1 (Some buddy_update))) ! 0)
       = Some 3
   \<and> (\<exists>p'. snd (update_pet (handle (initial_store 0) 3 (UpdatePet 1 (Some buddy_update))) 5 1
                  (Some buddy_update))
             = (handle (initial_store 0) 3 (UpdatePet 1 (Some buddy_update)))
                 \<lparr>pets_db :=
                    (pets_db (handle (initial_store 0) 3 (UpdatePet 1 (Some buddy_update))))
                      [0 := p']\<rparr>
          \<and> Pet_name p' = Some ''Buddy Updated''
          \<and> Pet_status p' = Some AVAILABLE
          \<and> Pet_id p' = 1
          \<and> Pet_updated_at p' = Some 5
          \<and> (\<exists>t'. Pet_updated_at p' = Some t' \<and> 3 \<le> t'))"
proof -
  let ?st = "handle (initial_store 0) 3 (UpdatePet 1 (Some buddy_update))"
  have h1: "reachable ?st" by (rule reachable.step) (rule reachable.initial)
  have pets: "pets_db ?st =
     [ \<lparr> Pet_id = 1, Pet_name = Some ''Buddy Updated'', Pet_category = Some DOG,
         Pet_status = Some AVAILABLE, Pet_tags = Some [''friendly'', ''house-trained''],
         Pet_price = Some 349.99, Pet_description = Some ''A friendly golden retriever'',
         Pet_photo_urls = Some [''https://example.com/buddy1.jpg''],
         Pet_created_at = 0, Pet_updated_at = Some 3 \<rparr>,
       \<lparr> Pet_id = 2, Pet_name = Some ''Whiskers'', Pet_category = Some CAT,
         Pet_status = Some AVAILABLE, Pet_tags = Some [''playful'', ''indoor''],
         Pet_price = Some 199.99, Pet_description = Some ''A playful orange tabby cat'',
         Pet_photo_urls = Some [''https://example.com/whiskers1.jpg''],
         Pet_created_at = 0, Pet_updated_at = None \<rparr>,
       \<lparr> Pet_id = 3, Pet_name = Some ''Tweety'', Pet_category = Some BIRD,
         Pet_status = Some SOLD, Pet_tags = Some [''colorful'', ''singing''],
         Pet_price = Some 89.99, Pet_description = Some ''A beautiful canary'',
         Pet_photo_urls = Some [''https://example.com/tweety1.jpg''],
         Pet_created_at = 0, Pet_updated_at = None \<rparr> ]"
    by (simp add: seed_defs update_pet_def copy_update_def merge_field_def buddy_update_def
        Let_def)
  have h2: "0 < length (pets_db ?st)" unfolding pets by simp
  have n: "PetUpdate_name buddy_update = Given (Some ''Buddy Updated'')"
    and s: "PetUpdate_status buddy_update = Unset"
    by (simp_all add: buddy_update_def)
  have s0: "Pet_status (pets_db ?st ! 0) = Some AVAILABLE"
    and i0: "Pet_id (pets_db ?st ! 0) = 1"
    and u0: "Pet_updated_at (pets_db ?st ! 0) = Some 3"
    unfolding pets by simp_all
  from C2_update_pet [OF h1 h2 refl, of 5 buddy_update]
  obtain p' where u: "update_pet ?st 5 (Pet_id (pets_db ?st ! 0)) (Some buddy_update)
             = (PetResponse_of p', ?st\<lparr>pets_db := (pets_db ?st)[0 := p']\<rparr>)"
    and a: "Pet_name p' = (case PetUpdate_name buddy_update of
              Unset \<Rightarrow> Pet_name (pets_db ?st ! 0) | Given v \<Rightarrow> v)"
    and b: "Pet_status p' = (case PetUpdate_status buddy_update of
              Unset \<Rightarrow> Pet_status (pets_db ?st ! 0) | Given v \<Rightarrow> v)"
    and c: "Pet_id p' = Pet_id (pets_db ?st ! 0)"
    and e: "Pet_updated_at p' = Some 5"
    and f: "\<forall>t. Pet_updated_at (pets_db ?st ! 0) = Some t \<and> t \<le> 5 \<longrightarrow>
              (\<exists>t'. Pet_updated_at p' = Some t' \<and> t \<le> t')"
    by blast
  from a n have a': "Pet_name p' = Some ''Buddy Updated''" by simp
  from b s s0 have b': "Pet_status p' = Some AVAILABLE" by simp
  from c i0 have c': "Pet_id p' = 1" by simp
  from f u0 have f': "\<exists>t'. Pet_updated_at p' = Some t' \<and> 3 \<le> t'" by simp
  from u i0 have u': "snd (update_pet ?st 5 1 (Some buddy_update))
                       = ?st\<lparr>pets_db := (pets_db ?st)[0 := p']\<rparr>"
    by simp
  from u' a' b' c' e f' have "\<exists>p'. snd (update_pet ?st 5 1 (Some buddy_update))
             = ?st\<lparr>pets_db := (pets_db ?st)[0 := p']\<rparr>
          \<and> Pet_name p' = Some ''Buddy Updated''
          \<and> Pet_status p' = Some AVAILABLE
          \<and> Pet_id p' = 1
          \<and> Pet_updated_at p' = Some 5
          \<and> (\<exists>t'. Pet_updated_at p' = Some t' \<and> 3 \<le> t')"
    by blast
  with h1 h2 u0 show ?thesis by (intro conjI)
qed

section \<open>Inventory\<close>

lemma PetStatus_value_inj: "PetStatus_value s = PetStatus_value s' \<longleftrightarrow> s = s'"
  by (cases s; cases s') simp_all

lemma holding_Cons:
  "holding (p # pets) k =
     holding pets k + (case Pet_status p of None \<Rightarrow> 0
                        | Some s \<Rightarrow> if PetStatus_value s = k then 1 else 0)"
  by (simp add: holding_def split: option.splits)

lemma inventory_loop_counts:
  "\<forall>p\<in>set pets. Pet_status p \<noteq> None \<Longrightarrow>
   inventory_loop pets inventory =
     Inr (\<lambda>k. if holding pets k = 0 then inventory k
              else Some ((case inventory k of None \<Rightarrow> 0 | Some n \<Rightarrow> n) + int (holding pets k)))"
proof (induction pets arbitrary: inventory)
  case Nil
  then show ?case by (simp add: holding_def)
next
  case (Cons p pets)
  from Cons.prems obtain s where s: "Pet_status p = Some s" by auto
  from Cons.prems have rest: "\<forall>p\<in>set pets. Pet_status p \<noteq> None" by simp
  let ?k = "PetStatus_value s"
  let ?n = "case inventory ?k of None \<Rightarrow> 0 | Some n \<Rightarrow> n"
  let ?inventory2 = "inventory(?k \<mapsto> ?n + 1)"
  have step: "inventory_loop (p # pets) inventory = inventory_loop pets ?inventory2"
    using s by (cases "inventory ?k") (simp_all add: Let_def)
  have fe: "(\<lambda>k. if holding pets k = 0 then ?inventory2 k
              else Some ((case ?inventory2 k of None \<Rightarrow> 0 | Some n \<Rightarrow> n)
                         + int (holding pets k)))
        = (\<lambda>k. if holding (p # pets) k = 0 then inventory k
              else Some ((case inventory k of None \<Rightarrow> 0 | Some n \<Rightarrow> n)
                         + int (holding (p # pets) k)))"
    by (rule ext) (simp add: holding_Cons s)
  have "inventory_loop (p # pets) inventory = inventory_loop pets ?inventory2"
    by (rule step)
  also have "\<dots> = Inr (\<lambda>k. if holding pets k = 0 then ?inventory2 k
              else Some ((case ?inventory2 k of None \<Rightarrow> 0 | Some n \<Rightarrow> n)
                         + int (holding pets k)))"
    by (rule Cons.IH [OF rest])
  also have "\<dots> = Inr (\<lambda>k. if holding (p # pets) k = 0 then inventory k
              else Some ((case inventory k of None \<Rightarrow> 0 | Some n \<Rightarrow> n)
                         + int (holding (p # pets) k)))"
    by (simp only: fe)
  finally show ?case .
qed

lemma get_inventory_counts:
  "\<forall>p\<in>set (pets_db st). Pet_status p \<noteq> None \<Longrightarrow>
   get_inventory st =
     Inr (\<lambda>k. if holding (pets_db st) k = 0 then None else Some (int (holding (pets_db st) k)))"
  by (simp add: get_inventory_def inventory_loop_counts cong: if_cong)

lemma holding_status:
  "holding pets (PetStatus_value s) = length (filter (\<lambda>p. Pet_status p = Some s) pets)"
proof -
  have e: "(\<lambda>p. case Pet_status p of None \<Rightarrow> False
                     | Some s' \<Rightarrow> PetStatus_value s' = PetStatus_value s)
        = (\<lambda>p. Pet_status p = Some s)"
    by (rule ext) (auto simp add: PetStatus_value_inj split: option.splits)
  show ?thesis unfolding holding_def e by (rule refl)
qed

lemma holding_pos:
  "holding pets k \<noteq> 0 \<longleftrightarrow> (\<exists>s. k = PetStatus_value s \<and> (\<exists>p\<in>set pets. Pet_status p = Some s))"
  by (auto simp add: holding_def filter_empty_conv split: option.splits)

lemma sum_holding:
  "finite A \<Longrightarrow> \<forall>p\<in>set pets. \<exists>s. Pet_status p = Some s \<and> PetStatus_value s \<in> A \<Longrightarrow>
   (\<Sum>k\<in>A. holding pets k) = length pets"
proof (induction pets)
  case Nil
  then show ?case by (simp add: holding_def)
next
  case (Cons p pets)
  from Cons.prems(2) obtain s where s: "Pet_status p = Some s" "PetStatus_value s \<in> A"
    by auto
  from Cons.prems(2) have rest: "\<forall>p\<in>set pets. \<exists>s. Pet_status p = Some s \<and> PetStatus_value s \<in> A"
    by simp
  have "(\<Sum>k\<in>A. holding (p # pets) k)
        = (\<Sum>k\<in>A. holding pets k) + (\<Sum>k\<in>A. if PetStatus_value s = k then 1 else 0)"
    by (simp add: holding_Cons s sum.distrib)
  also have "(\<Sum>k\<in>A. if PetStatus_value s = k then 1 else 0) = (1::nat)"
    using Cons.prems(1) s(2) by simp
  finally show ?case using Cons.IH [OF Cons.prems(1) rest] by simp
qed

text \<open>
  For every store whose pets all have a status, the inventory is a dictionary whose
  keys are exactly the string values of the statuses that at least one pet holds, each
  key's value is the number of pets holding that status, no value is 0, and the values
  add up to the number of pets.
\<close>

lemma inventory_counts_statuses:
  "\<forall>p\<in>set (pets_db st). Pet_status p \<noteq> None \<Longrightarrow>
   \<exists>m. get_inventory st = Inr m
     \<and> dom m = {k. \<exists>s. k = PetStatus_value s \<and> (\<exists>p\<in>set (pets_db st). Pet_status p = Some s)}
     \<and> (\<forall>s n. m (PetStatus_value s) = Some n \<longrightarrow>
           n = int (length (filter (\<lambda>p. Pet_status p = Some s) (pets_db st))))
     \<and> 0 \<notin> ran m
     \<and> (\<Sum>k\<in>dom m. the (m k)) = int (length (pets_db st))"
proof -
  assume all: "\<forall>p\<in>set (pets_db st). Pet_status p \<noteq> None"
  let ?pets = "pets_db st"
  let ?m = "\<lambda>k. if holding ?pets k = 0 then None else Some (int (holding ?pets k))"
  have res: "get_inventory st = Inr ?m" using all by (rule get_inventory_counts)
  have dom: "dom ?m = {k. \<exists>s. k = PetStatus_value s \<and> (\<exists>p\<in>set ?pets. Pet_status p = Some s)}"
    using holding_pos [of ?pets] by (auto simp add: dom_def)
  have val: "\<forall>s n. ?m (PetStatus_value s) = Some n \<longrightarrow>
           n = int (length (filter (\<lambda>p. Pet_status p = Some s) ?pets))"
    by (auto simp add: holding_status split: if_splits)
  have nz: "0 \<notin> ran ?m" by (auto simp add: ran_def split: if_splits)
  have "dom ?m \<subseteq> {''available'', ''pending'', ''sold''}"
  proof
    fix k assume "k \<in> dom ?m"
    with dom obtain s where "k = PetStatus_value s" by blast
    then show "k \<in> {''available'', ''pending'', ''sold''}" by (cases s) simp_all
  qed
  then have fin: "finite (dom ?m)" by (rule finite_subset) simp
  have cover: "\<forall>p\<in>set ?pets. \<exists>s. Pet_status p = Some s \<and> PetStatus_value s \<in> dom ?m"
  proof
    fix p assume p: "p \<in> set ?pets"
    with all obtain s where s: "Pet_status p = Some s" by auto
    with p have "PetStatus_value s \<in> dom ?m" unfolding dom by blast
    with s show "\<exists>s. Pet_status p = Some s \<and> PetStatus_value s \<in> dom ?m" by blast
  qed
  have "(\<Sum>k\<in>dom ?m. the (?m k)) = (\<Sum>k\<in>dom ?m. int (holding ?pets k))"
    by (rule sum.cong) (auto split: if_splits)
  also have "\<dots> = int (\<Sum>k\<in>dom ?m. holding ?pets k)" by simp
  also have "\<dots> = int (length ?pets)" using sum_holding [OF fin cover] by simp
  finally have total: "(\<Sum>k\<in>dom ?m. the (?m k)) = int (length ?pets)" .
  from res dom val nz total show ?thesis by blast
qed

lemma inventory_of_seeded_store:
  "list_all (\<lambda>p. Pet_status p \<noteq> None) (pets_db (initial_store 0))
   \<and> (\<exists>m. get_inventory (initial_store 0) = Inr m
          \<and> m ''available'' = Some 2 \<and> m ''sold'' = Some 1 \<and> m ''pending'' = None
          \<and> (\<Sum>k\<in>dom m. the (m k)) = 3)"
proof -
  let ?pets = "pets_db (initial_store 0)"
  have h: "\<forall>p\<in>set ?pets. Pet_status p \<noteq> None" by (simp add: seed_defs)
  have ex: "\<And>s. (\<exists>p\<in>set ?pets. Pet_status p = Some s) \<longleftrightarrow> s = AVAILABLE \<or> s = SOLD"
    by (auto simp add: seed_defs)
  have ca: "length (filter (\<lambda>p. Pet_status p = Some AVAILABLE) ?pets) = 2"
    and cs: "length (filter (\<lambda>p. Pet_status p = Some SOLD) ?pets) = 1"
    and len: "length ?pets = 3"
    by (simp_all add: seed_defs)
  from inventory_counts_statuses [OF h]
  obtain m where m: "get_inventory (initial_store 0) = Inr m
     \<and> dom m = {k. \<exists>s. k = PetStatus_value s \<and> (\<exists>p\<in>set ?pets. Pet_status p = Some s)}
     \<and> (\<forall>s n. m (PetStatus_value s) = Some n \<longrightarrow>
           n = int (length (filter (\<lambda>p. Pet_status p = Some s) ?pets)))
     \<and> 0 \<notin> ran m
     \<and> (\<Sum>k\<in>dom m. the (m k)) = int (length ?pets)" ..
  from m have res: "get_inventory (initial_store 0) = Inr m" by (elim conjE)
  from m have dom: "dom m = {k. \<exists>s. k = PetStatus_value s
                        \<and> (\<exists>p\<in>set ?pets. Pet_status p = Some s)}"
    by (elim conjE)
  from m have val: "\<forall>s n. m (PetStatus_value s) = Some n \<longrightarrow>
                n = int (length (filter (\<lambda>p. Pet_status p = Some s) ?pets))"
    by (elim conjE)
  from m have total: "(\<Sum>k\<in>dom m. the (m k)) = int (length ?pets)" by (elim conjE)
  have indom: "\<And>s. PetStatus_value s \<in> dom m \<longleftrightarrow> s = AVAILABLE \<or> s = SOLD"
    unfolding dom by (simp add: ex PetStatus_value_inj)
  from indom [of AVAILABLE] obtain a where a: "m (PetStatus_value AVAILABLE) = Some a"
    by (auto simp add: domIff)
  from val a have "a = int (length (filter (\<lambda>p. Pet_status p = Some AVAILABLE) ?pets))"
    by (elim allE impE)
  with a ca have ma: "m ''available'' = Some 2" by simp
  from indom [of SOLD] obtain b where b: "m (PetStatus_value SOLD) = Some b"
    by (auto simp add: domIff)
  from val b have "b = int (length (filter (\<lambda>p. Pet_status p = Some SOLD) ?pets))"
    by (elim allE impE)
  with b cs have ms: "m ''sold'' = Some 1" by simp
  from indom [of PENDING] have mp: "m ''pending'' = None" by (simp add: domIff)
  from total len have tot: "(\<Sum>k\<in>dom m. the (m k)) = 3" by simp
  from res ma ms mp tot have "\<exists>m. get_inventory (initial_store 0) = Inr m
          \<and> m ''available'' = Some 2 \<and> m ''sold'' = Some 1 \<and> m ''pending'' = None
          \<and> (\<Sum>k\<in>dom m. the (m k)) = 3"
    by (intro exI [of _ m] conjI)
  with h show ?thesis unfolding list_all_iff by (intro conjI)
qed

section \<open>Listing pets\<close>

lemma PetStatus_value_nonempty: "PetStatus_value s \<noteq> []"
  by (cases s) simp_all

lemma PetCategory_value_nonempty: "PetCategory_value c \<noteq> []"
  by (cases c) simp_all

lemma py_slice_page:
  "0 \<le> offset \<Longrightarrow> 0 \<le> limit \<Longrightarrow> py_slice xs offset (offset + limit) = spec_page xs offset limit"
proof -
  assume o: "0 \<le> offset" and l: "0 \<le> limit"
  show ?thesis
  proof (cases "offset \<le> int (length xs)")
    case True
    have "take (nat (min (offset + limit) (int (length xs)) - offset)) (drop (nat offset) xs)
          = take (nat limit) (drop (nat offset) xs)"
    proof (cases "offset + limit \<le> int (length xs)")
      case True
      then show ?thesis by (simp add: min_def)
    next
      case False
      with o True have "length (drop (nat offset) xs) \<le> nat (int (length xs) - offset)"
        and "length (drop (nat offset) xs) \<le> nat limit"
        by auto
      with False show ?thesis by (simp add: min_def)
    qed
    with o l True show ?thesis by (simp add: py_slice_def spec_page_def Let_def min_def)
  next
    case False
    with o l show ?thesis by (simp add: py_slice_def spec_page_def Let_def min_def)
  qed
qed

lemma satisfies_fun:
  "satisfies status category =
     (\<lambda>pet. (case status of None \<Rightarrow> True | Some s \<Rightarrow> Pet_status pet = Some s)
          \<and> (case category of None \<Rightarrow> True | Some c \<Rightarrow> Pet_category pet = Some c))"
  by (rule ext) (simp add: satisfies_def)

lemma filters_satisfies:
  "(let filtered_pets = pets;
        filtered_pets =
          (case status of
             None \<Rightarrow> filtered_pets
           | Some s \<Rightarrow>
               if PetStatus_value s \<noteq> []
               then filter (\<lambda>pet. Pet_status pet = Some s) filtered_pets
               else filtered_pets);
        filtered_pets =
          (case category of
             None \<Rightarrow> filtered_pets
           | Some c \<Rightarrow>
               if PetCategory_value c \<noteq> []
               then filter (\<lambda>pet. Pet_category pet = Some c) filtered_pets
               else filtered_pets)
    in f filtered_pets) = f (filter (satisfies status category) pets)"
  by (cases status; cases category)
    (simp_all add: satisfies_fun PetStatus_value_nonempty PetCategory_value_nonempty)

lemma get_pets_page:
  "1 \<le> limit \<Longrightarrow> limit \<le> 100 \<Longrightarrow> 0 \<le> offset \<Longrightarrow>
   get_pets st status category limit offset =
     PetResponse_list (spec_page (filter (satisfies status category) (pets_db st)) offset limit)"
proof -
  assume l: "1 \<le> limit" "limit \<le> 100" and o: "0 \<le> offset"
  from l o have "get_pets st status category limit offset =
     PetResponse_list (py_slice (filter (satisfies status category) (pets_db st))
        offset (offset + limit))"
    unfolding get_pets_def
    using filters_satisfies [of "pets_db st" status category
        "\<lambda>fp. let start = offset; stop = offset + limit; paginated_pets = py_slice fp start stop
              in PetResponse_list paginated_pets"]
    by (simp add: Let_def)
  with l o show ?thesis by (simp add: py_slice_page)
qed

lemma PetResponse_of_conforms: "conforms pet \<longleftrightarrow> (\<exists>r. PetResponse_of pet = Inr r)"
  by (auto simp add: conforms_def PetResponse_of_def split: option.splits)

lemma PetResponse_list_conforms:
  "\<forall>pet\<in>set pets. conforms pet \<Longrightarrow>
   \<exists>rs. PetResponse_list pets = Inr rs \<and> map Inr rs = map PetResponse_of pets"
proof (induction pets)
  case Nil
  then show ?case by simp
next
  case (Cons pet pets)
  from Cons.prems obtain r where r: "PetResponse_of pet = Inr r"
    by (auto simp add: PetResponse_of_conforms)
  from Cons.prems Cons.IH obtain rs where rs: "PetResponse_list pets = Inr rs"
    "map Inr rs = map PetResponse_of pets" by auto
  from r rs have "PetResponse_list (pet # pets) = Inr (r # rs)
      \<and> map Inr (r # rs) = map PetResponse_of (pet # pets)" by simp
  then show ?case by blast
qed

text \<open>
  For a limit in 1..100 and an offset of at least 0, and whatever filters are given,
  \<open>get_pets\<close> answers with the projections, in list order, of the records at the index
  range \<open>[offset, offset + limit)\<close> of the records that pass every given filter, provided
  the records of that range have the field types of class \<open>Pet\<close>; and when the offset
  is at or beyond the number of records that pass, the answer is the empty list.
\<close>

lemma get_pets_page_of_conforming:
  "1 \<le> limit \<Longrightarrow> limit \<le> 100 \<Longrightarrow> 0 \<le> offset \<Longrightarrow>
   ((\<forall>pet\<in>set (spec_page (filter (satisfies status category) (pets_db st)) offset limit).
        conforms pet) \<longrightarrow>
      (\<exists>rs. get_pets st status category limit offset = Inr rs
          \<and> map Inr rs = map PetResponse_of
                (spec_page (filter (satisfies status category) (pets_db st)) offset limit)))
   \<and> (int (length (filter (satisfies status category) (pets_db st))) \<le> offset \<longrightarrow>
        get_pets st status category limit offset = Inr [])"
proof -
  assume l: "1 \<le> limit" "limit \<le> 100" and o: "0 \<le> offset"
  let ?hits = "filter (satisfies status category) (pets_db st)"
  note page = get_pets_page [OF l o, of st status category]
  have a: "(\<forall>pet\<in>set (spec_page ?hits offset limit). conforms pet) \<longrightarrow>
      (\<exists>rs. get_pets st status category limit offset = Inr rs
          \<and> map Inr rs = map PetResponse_of (spec_page ?hits offset limit))"
    unfolding page by (rule impI) (rule PetResponse_list_conforms)
  have b: "int (length ?hits) \<le> offset \<longrightarrow> get_pets st status category limit offset = Inr []"
  proof
    assume "int (length ?hits) \<le> offset"
    with o have "spec_page ?hits offset limit = []" by (simp add: spec_page_def)
    then show "get_pets st status category limit offset = Inr []" by (simp add: page)
  qed
  from a b show ?thesis by (rule conjI)
qed

lemma get_pets_of_seeded_store:
  "(1::int) \<le> 2 \<and> (2::int) \<le> 100 \<and> (0::int) \<le> 0 \<and> (0::int) \<le> 3
   \<and> list_all conforms
        (spec_page (filter (satisfies (Some AVAILABLE) None) (pets_db (initial_store 0))) 0 2)
   \<and> (\<exists>rs. get_pets (initial_store 0) (Some AVAILABLE) None 2 0 = Inr rs
          \<and> map PetResponse_id rs = [1, 2])
   \<and> int (length (filter (satisfies (Some AVAILABLE) None) (pets_db (initial_store 0)))) \<le> 3
   \<and> get_pets (initial_store 0) (Some AVAILABLE) None 2 3 = Inr []"
proof -
  let ?hits = "filter (satisfies (Some AVAILABLE) None) (pets_db (initial_store 0))"
  have page: "spec_page ?hits 0 2 = take 2 (sample_pets 0)"
    by (simp add: seed_defs spec_page_def satisfies_def)
  have h: "\<forall>pet\<in>set (spec_page ?hits 0 2). conforms pet"
    unfolding page by (simp add: sample_pets_def conforms_def del: not_None_eq)
  have n: "int (length ?hits) \<le> 3" by (simp add: seed_defs satisfies_def)
  from get_pets_page_of_conforming [of 2 0 "Some AVAILABLE" None "initial_store 0"] h
  obtain rs where rs: "get_pets (initial_store 0) (Some AVAILABLE) None 2 0 = Inr rs"
    and m: "map Inr rs = map PetResponse_of (spec_page ?hits 0 2)"
    by auto
  from m have ids: "map PetResponse_id rs = [1, 2]"
    unfolding page by (auto simp add: sample_pets_def PetResponse_of_def)
  from rs ids have e: "\<exists>rs. get_pets (initial_store 0) (Some AVAILABLE) None 2 0 = Inr rs
          \<and> map PetResponse_id rs = [1, 2]" by (intro exI [of _ rs] conjI)
  from get_pets_page_of_conforming [of 2 3 "Some AVAILABLE" None "initial_store 0"] n
  have z: "get_pets (initial_store 0) (Some AVAILABLE) None 2 3 = Inr []" by simp
  from h e n z show ?thesis unfolding list_all_iff by simp
qed

section \<open>A status sent as null\<close>

text \<open>
  Class \<open>Pet\<close> declares \<open>status: PetStatus\<close> and the response schema requires it, but
  \<open>update_pet\<close> writes the payload through \<open>copy(update=...)\<close> without validating it:
  an update whose body sets \<open>status\<close> to \<open>null\<close> stores the \<open>None\<close> and then fails to build
  its response. The store it leaves is one the running application can be in.
\<close>

lemma inventory_loop_without_status:
  "\<exists>p\<in>set pets. Pet_status p = None \<Longrightarrow> inventory_loop pets inventory = Inl InternalServerError"
proof (induction pets arbitrary: inventory)
  case Nil
  then show ?case by simp
next
  case (Cons p pets)
  show ?case
  proof (cases "Pet_status p")
    case None
    then show ?thesis by simp
  next
    case (Some s)
    with Cons.prems have "\<exists>p\<in>set pets. Pet_status p = None" by auto
    from Cons.IH [OF this] Some show ?thesis
      by (cases "inventory (PetStatus_value s)") (simp_all add: Let_def)
  qed
qed

lemma None_in_map: "None \<in> set (map f xs) \<Longrightarrow> \<exists>p\<in>set xs. f p = None"
  by (induction xs) (auto simp del: not_None_eq)

lemma null_status_update:
  "fst (update_pet (initial_store 0) 3 1 (Some null_status)) = Inl InternalServerError
   \<and> map Pet_status (pets_db (snd (update_pet (initial_store 0) 3 1 (Some null_status))))
       = [None, Some AVAILABLE, Some SOLD]
   \<and> get_inventory (snd (update_pet (initial_store 0) 3 1 (Some null_status)))
       = Inl InternalServerError"
proof -
  have u: "update_pet (initial_store 0) 3 1 (Some null_status) =
     (Inl InternalServerError,
      (initial_store 0)\<lparr>pets_db :=
         (pets_db (initial_store 0))
           [0 := (pets_db (initial_store 0) ! 0)\<lparr>Pet_status := None, Pet_updated_at := Some 3\<rparr>]\<rparr>)"
    by (simp add: seed_defs update_pet_def copy_update_def merge_field_def null_status_def
        Let_def PetResponse_of_def)
  have s: "map Pet_status (pets_db (snd (update_pet (initial_store 0) 3 1 (Some null_status))))
       = [None, Some AVAILABLE, Some SOLD]"
    unfolding u by (simp add: seed_defs)
  have "None \<in> set (map Pet_status
            (pets_db (snd (update_pet (initial_store 0) 3 1 (Some null_status)))))"
    unfolding s by simp
  then have "\<exists>p\<in>set (pets_db (snd (update_pet (initial_store 0) 3 1 (Some null_status)))).
               Pet_status p = None"
    by (rule None_in_map)
  then have "get_inventory (snd (update_pet (initial_store 0) 3 1 (Some null_status)))
       = Inl InternalServerError"
    unfolding get_inventory_def by (rule inventory_loop_without_status)
  with u s show ?thesis by simp
qed

lemma null_status_reachable:
  "reachable (handle (initial_store 0) 3 (UpdatePet 1 (Some null_status)))"
  by (rule reachable.step) (rule reachable.initial)

lemma null_status_pets:
  "pets_db (handle (initial_store 0) 3 (UpdatePet 1 (Some null_status))) =
     [ \<lparr> Pet_id = 1, Pet_name = Some ''Buddy'', Pet_category = Some DOG,
         Pet_status = None, Pet_tags = Some [''friendly'', ''house-trained''],
         Pet_price = Some 299.99, Pet_description = Some ''A friendly golden retriever'',
         Pet_photo_urls = Some [''https://example.com/buddy1.jpg''],
         Pet_created_at = 0, Pet_updated_at = Some 3 \<rparr>,
       \<lparr> Pet_id = 2, Pet_name = Some ''Whiskers'', Pet_category = Some CAT,
         Pet_status = Some AVAILABLE, Pet_tags = Some [''playful'', ''indoor''],
         Pet_price = Some 199.99, Pet_description = Some ''A playful orange tabby cat'',
         Pet_photo_urls = Some [''https://example.com/whiskers1.jpg''],
         Pet_created_at = 0, Pet_updated_at = None \<rparr>,
       \<lparr> Pet_id = 3, Pet_name = Some ''Tweety'', Pet_category = Some BIRD,
         Pet_status = Some SOLD, Pet_tags = Some [''colorful'', ''singing''],
         Pet_price = Some 89.99, Pet_description = Some ''A beautiful canary'',
         Pet_photo_urls = Some [''https://example.com/tweety1.jpg''],
         Pet_created_at = 0, Pet_updated_at = None \<rparr> ]"
  by (simp add: seed_defs update_pet_def copy_update_def merge_field_def null_status_def
      Let_def)

text \<open>
  C7. The inventory is to be, in every state of the pet list, the dictionary of the
  statuses held with their counts. The code does not do that in the reachable store
  left by \<open>PUT /pets/1\<close> with the body \<open>{"status": null}\<close>: the list still has three pets,
  two of them with a status, and \<open>get_inventory\<close> returns no dictionary but raises on
  \<open>pet.status.value\<close>.
\<close>

theorem C7_inventory_raises_after_null_status:
  "reachable (handle (initial_store 0) 3 (UpdatePet 1 (Some null_status)))
   \<and> map Pet_status (pets_db (handle (initial_store 0) 3 (UpdatePet 1 (Some null_status))))
       = [None, Some AVAILABLE, Some SOLD]
   \<and> get_inventory (handle (initial_store 0) 3 (UpdatePet 1 (Some null_status)))
       = Inl InternalServerError"
proof -
  let ?st = "handle (initial_store 0) 3 (UpdatePet 1 (Some null_status))"
  have s: "map Pet_status (pets_db ?st) = [None, Some AVAILABLE, Some SOLD]"
    unfolding null_status_pets by simp
  have "get_inventory ?st = Inl InternalServerError"
    unfolding get_inventory_def null_status_pets by simp
  with null_status_reachable s show ?thesis by (intro conjI)
qed

text \<open>
  C8. The listing is to return, for a limit in 1..100 and an offset of at least 0, the
  page of the records that pass the given filters. The code does not do that in the
  same reachable store: with no filter, limit 10 and offset 0 all three records pass
  and belong to the page, and \<open>get_pets\<close> returns no list but raises while it builds the
  response of the first record.
\<close>

theorem C8_get_pets_raises_after_null_status:
  "reachable (handle (initial_store 0) 3 (UpdatePet 1 (Some null_status)))
   \<and> length (spec_page (filter (satisfies None None)
          (pets_db (handle (initial_store 0) 3 (UpdatePet 1 (Some null_status))))) 0 10) = 3
   \<and> get_pets (handle (initial_store 0) 3 (UpdatePet 1 (Some null_status))) None None 10 0
       = Inl InternalServerError"
proof -
  let ?st = "handle (initial_store 0) 3 (UpdatePet 1 (Some null_status))"
  have n: "length (spec_page (filter (satisfies None None) (pets_db ?st)) 0 10) = 3"
    unfolding null_status_pets by (simp add: spec_page_def satisfies_def)
  have "get_pets ?st None None 10 0 = Inl InternalServerError"
    unfolding get_pets_def null_status_pets
    by (simp add: py_slice_def Let_def PetResponse_of_def)
  with null_status_reachable n show ?thesis by (intro conjI)
qed

end
